theory Spec2Isabelle
  imports Complex_Main "HOL-Library.AList"
begin

section \<open>The Abaqus \<open>.inp\<close> mesh reader of Phon\<close>

text \<open>
  A shallow embedding of \<^verbatim>\<open>phon/io/read/read_from_abaqus_inp.py\<close>. The module is
  Python 2 code (\<^verbatim>\<open>print x,\<close> statements, \<^verbatim>\<open>range\<close> returning a list), so a
  string is a byte string: \<^typ>\<open>string\<close>. The file object is the text that is still
  unread; \<^verbatim>\<open>f.tell()\<close> hands out that remainder and \<^verbatim>\<open>f.seek(p)\<close> puts it back
  (the code only seeks to positions it has just obtained from \<^verbatim>\<open>tell\<close>). The text
  is the one the read calls see, after the newline translation of mode \<^verbatim>\<open>"rU"\<close>.
\<close>

subsection \<open>Strings and the file object\<close>

type_synonym stream = string

definition nl :: char where
  "nl = CHR 0x0A"

text \<open>\<^verbatim>\<open>f.readline()\<close>: the text up to and including the next newline, or what is
  left when there is none; the empty string at end of file.\<close>

definition readline :: "stream \<Rightarrow> string \<times> stream" where
  "readline f =
     (case dropWhile (\<lambda>c. c \<noteq> nl) f of
        [] \<Rightarrow> (f, [])
      | c # rest \<Rightarrow> (takeWhile (\<lambda>c. c \<noteq> nl) f @ [nl], rest))"

text \<open>The whitespace of \<^verbatim>\<open>str.strip()\<close>: tab, newline, vertical tab, form feed,
  carriage return and space.\<close>

definition is_space :: "char \<Rightarrow> bool" where
  "is_space c = (c = CHR 0x09 \<or> c = CHR 0x0A \<or> c = CHR 0x0B \<or> c = CHR 0x0C
                 \<or> c = CHR 0x0D \<or> c = CHR 0x20)"

definition strip :: "string \<Rightarrow> string" where
  "strip s = rev (dropWhile is_space (rev (dropWhile is_space s)))"

text \<open>\<^verbatim>\<open>s.split(',')\<close>: always at least one piece.\<close>

fun split_comma :: "string \<Rightarrow> string list" where
  "split_comma [] = [[]]"
| "split_comma (c # cs) =
     (if c = CHR '','' then [] # split_comma cs
      else (case split_comma cs of
              [] \<Rightarrow> [[c]]
            | w # ws \<Rightarrow> (c # w) # ws))"

text \<open>\<^verbatim>\<open>re.compile(prefix + "(.*)").match(line)\<close> for a literal prefix: the match is
  anchored at the start of the line, and the group is the longest run of characters
  other than newline that follows the prefix.\<close>

definition re_match :: "string \<Rightarrow> string \<Rightarrow> string option" where
  "re_match prefix line =
     (if take (length prefix) line = prefix
      then Some (takeWhile (\<lambda>c. c \<noteq> nl) (drop (length prefix) line))
      else None)"

definition startswith :: "string \<Rightarrow> string \<Rightarrow> bool" where
  "startswith s p = (take (length p) s = p)"

definition endswith :: "string \<Rightarrow> string \<Rightarrow> bool" where
  "endswith s p = (length p \<le> length s \<and> drop (length s - length p) s = p)"

subsection \<open>Numbers\<close>

text \<open>
  A Python float is an IEEE binary64 value: a finite one is kept as the rational it
  denotes (the two zeros are not told apart), besides the infinities and not-a-number.
\<close>

datatype pyfloat = Finite rat | PosInf | NegInf | NaN

datatype number = PyInt int | PyFloat pyfloat

datatype error =
    ReadInpFileError string
  | ValueError
  | TypeError
  | IndexError
  | UnboundLocalError

definition is_digit :: "char \<Rightarrow> bool" where
  "is_digit c = (48 \<le> (of_char c :: nat) \<and> (of_char c :: nat) \<le> 57)"

definition digits_value :: "string \<Rightarrow> nat" where
  "digits_value ds = foldl (\<lambda>a c. 10 * a + ((of_char c :: nat) - 48)) 0 ds"

definition all_digits :: "string \<Rightarrow> bool" where
  "all_digits ds = (ds \<noteq> [] \<and> list_all is_digit ds)"

text \<open>An optional sign in front of the rest of a literal.\<close>

definition take_sign :: "string \<Rightarrow> bool \<times> string" where
  "take_sign s =
     (case s of
        [] \<Rightarrow> (False, [])
      | c # r \<Rightarrow> if c = CHR ''-'' then (True, r)
                 else if c = CHR ''+'' then (False, r)
                 else (False, s))"

text \<open>\<^verbatim>\<open>int(s)\<close> on a string, base ten: whitespace around, an optional sign, one or
  more decimal digits. \<open>None\<close> stands for the builtin's \<^verbatim>\<open>ValueError\<close>.\<close>

definition py_int :: "string \<Rightarrow> int option" where
  "py_int s =
     (let (neg, ds) = take_sign (strip s)
      in if all_digits ds
         then Some (if neg then - int (digits_value ds) else int (digits_value ds))
         else None)"

text \<open>Powers of two and ten with an integer exponent.\<close>

definition pow_int :: "rat \<Rightarrow> int \<Rightarrow> rat" where
  "pow_int b e = (if 0 \<le> e then b ^ nat e else 1 / b ^ nat (- e))"

text \<open>The number of binary digits of a natural number.\<close>

fun bit_length :: "nat \<Rightarrow> nat" where
  "bit_length n = (if n = 0 then 0 else Suc (bit_length (n div 2)))"

text \<open>The exponent \<open>e\<close> with \<open>2 ^ e \<le> a < 2 ^ (e + 1)\<close>, for a positive rational.\<close>

definition floor_log2 :: "rat \<Rightarrow> int" where
  "floor_log2 a =
     (let (p, q) = quotient_of a;
          d = int (bit_length (nat p)) - int (bit_length (nat q))
      in if pow_int 2 d \<le> a then d else d - 1)"

definition round_half_even :: "rat \<Rightarrow> int" where
  "round_half_even x =
     (let n = \<lfloor>x\<rfloor>; r = x - of_int n
      in if r < 1 / 2 then n
         else if 1 / 2 < r then n + 1
         else if even n then n else n + 1)"

text \<open>Rounding a rational to the nearest binary64 value, ties to even: 53 significant
  bits, the smallest exponent of the last place is \<open>-1074\<close>, and a result of
  \<open>2 ^ 1024\<close> or more is an infinity.\<close>

definition round_binary64 :: "rat \<Rightarrow> pyfloat" where
  "round_binary64 q =
     (if q = 0 then Finite 0
      else let a = \<bar>q\<bar>;
               e = max (floor_log2 a - 52) (- 1074);
               v = of_int (round_half_even (a / pow_int 2 e)) * pow_int 2 e
           in if pow_int 2 1024 \<le> v then (if q < 0 then NegInf else PosInf)
              else Finite (if q < 0 then - v else v))"

definition lower :: "char \<Rightarrow> char" where
  "lower c =
     (if 65 \<le> (of_char c :: nat) \<and> (of_char c :: nat) \<le> 90
      then char_of ((of_char c :: nat) + 32) else c)"

text \<open>The exponent part of a float literal: nothing, or \<^verbatim>\<open>e\<close> with an optional sign
  and digits.\<close>

definition float_exponent :: "string \<Rightarrow> int option" where
  "float_exponent s =
     (case s of
        [] \<Rightarrow> Some 0
      | c # r \<Rightarrow>
          if lower c = CHR ''e''
          then (let (neg, ds) = take_sign r
                in if all_digits ds
                   then Some (if neg then - int (digits_value ds) else int (digits_value ds))
                   else None)
          else None)"

text \<open>\<^verbatim>\<open>float(s)\<close> on a string: whitespace around, an optional sign, then
  \<^verbatim>\<open>inf\<close>, \<^verbatim>\<open>infinity\<close> or \<^verbatim>\<open>nan\<close> in any case, or a decimal literal with digits
  before or after an optional point and an optional exponent. \<open>None\<close> stands for the
  builtin's \<^verbatim>\<open>ValueError\<close>.\<close>

definition py_float :: "string \<Rightarrow> pyfloat option" where
  "py_float s =
     (let (neg, body) = take_sign (strip s);
          word = map lower body
      in if word = ''inf'' \<or> word = ''infinity'' then Some (if neg then NegInf else PosInf)
         else if word = ''nan'' then Some NaN
         else
           let ip = takeWhile is_digit body;
               r1 = dropWhile is_digit body;
               has_point = (r1 \<noteq> [] \<and> hd r1 = CHR ''.'');
               fp = (if has_point then takeWhile is_digit (tl r1) else []);
               r2 = (if has_point then dropWhile is_digit (tl r1) else r1)
           in if ip = [] \<and> fp = [] then None
              else (case float_exponent r2 of
                      None \<Rightarrow> None
                    | Some ex \<Rightarrow>
                        let m = of_nat (digits_value (ip @ fp)) * pow_int 10 (ex - int (length fp))
                        in Some (round_binary64 (if neg then - m else m))))"

text \<open>\<^verbatim>\<open>to_number\<close>: an int if possible, else a float; the \<^verbatim>\<open>ValueError\<close> of
  \<^verbatim>\<open>float\<close> is not caught.\<close>

definition to_number :: "string \<Rightarrow> error + number" where
  "to_number number =
     (case py_int number of
        Some i \<Rightarrow> Inr (PyInt i)
      | None \<Rightarrow>
          (case py_float number of
             Some x \<Rightarrow> Inr (PyFloat x)
           | None \<Rightarrow> Inl ValueError))"

text \<open>The list comprehension \<^verbatim>\<open>[to_number(x) for x in xs]\<close>: the first token that
  fails raises.\<close>

fun to_numbers :: "string list \<Rightarrow> error + number list" where
  "to_numbers [] = Inr []"
| "to_numbers (x # xs) =
     (case to_number x of
        Inl e \<Rightarrow> Inl e
      | Inr n \<Rightarrow> (case to_numbers xs of
                    Inl e \<Rightarrow> Inl e
                  | Inr ns \<Rightarrow> Inr (n # ns)))"

text \<open>\<^verbatim>\<open>x + 1\<close> on a number; a float sum is rounded again.\<close>

definition py_add_one :: "number \<Rightarrow> number" where
  "py_add_one x =
     (case x of
        PyInt i \<Rightarrow> PyInt (i + 1)
      | PyFloat y \<Rightarrow>
          (case y of
             Finite q \<Rightarrow> PyFloat (round_binary64 (q + 1))
           | PosInf \<Rightarrow> PyFloat PosInf
           | NegInf \<Rightarrow> PyFloat NegInf
           | NaN \<Rightarrow> PyFloat NaN))"

text \<open>The members of \<^verbatim>\<open>range(start, stop, step)\<close> for integers and a step other
  than zero: upwards below \<open>stop\<close>, or downwards above it.\<close>

function range_list :: "int \<Rightarrow> int \<Rightarrow> int \<Rightarrow> int list" where
  "range_list start stop step =
     (if 0 < step \<and> start < stop then start # range_list (start + step) stop step
      else if step < 0 \<and> stop < start then start # range_list (start + step) stop step
      else [])"
  by pat_completeness auto
termination
  by (relation "measure (\<lambda>(start, stop, step). nat (if 0 < step then stop - start else start - stop))")
     auto

declare range_list.simps [simp del]

text \<open>\<^verbatim>\<open>range(start, stop, step)\<close> of Python 2, a list: a float argument is a
  \<^verbatim>\<open>TypeError\<close>, a zero step a \<^verbatim>\<open>ValueError\<close>. The limit on the length of the
  list (memory) is not modelled.\<close>

definition py_range :: "number \<Rightarrow> number \<Rightarrow> number \<Rightarrow> error + number list" where
  "py_range start stop step =
     (case start of
        PyFloat _ \<Rightarrow> Inl TypeError
      | PyInt a \<Rightarrow>
          (case stop of
             PyFloat _ \<Rightarrow> Inl TypeError
           | PyInt b \<Rightarrow>
               (case step of
                  PyFloat _ \<Rightarrow> Inl TypeError
                | PyInt c \<Rightarrow>
                    if c = 0 then Inl ValueError
                    else Inr (map PyInt (range_list a b c)))))"

text \<open>Equality of numbers as \<^verbatim>\<open>==\<close> and the dictionary see it: an int and a float
  are compared by value, and not-a-number equals nothing.\<close>

fun py_eq :: "number \<Rightarrow> number \<Rightarrow> bool" where
  "py_eq (PyInt a) (PyInt b) = (a = b)"
| "py_eq (PyInt a) (PyFloat (Finite q)) = (of_int a = q)"
| "py_eq (PyFloat (Finite q)) (PyInt b) = (q = of_int b)"
| "py_eq (PyFloat NaN) _ = False"
| "py_eq _ (PyFloat NaN) = False"
| "py_eq (PyFloat x) (PyFloat y) = (x = y)"
| "py_eq _ _ = False"

subsection \<open>The mesh objects\<close>

text \<open>
  The classes of \<^verbatim>\<open>phon.mesh_objects\<close> hold data only. A dictionary is a list of
  entries: \<^verbatim>\<open>d[k] = v\<close> replaces the value of the entry whose key equals \<open>k\<close>, or
  adds an entry. With numbers as keys the equality is \<open>py_eq\<close> and the entry keeps its
  key object (\<open>dict_set\<close>); with names as keys it is \<^const>\<open>AList.update\<close>, read with
  \<^const>\<open>map_of\<close>. The conversion of the coordinates by \<^verbatim>\<open>numpy.array\<close> is left out: a
  node keeps the numbers as read.
\<close>

type_synonym 'v dict = "(number \<times> 'v) list"

fun dict_set :: "'v dict \<Rightarrow> number \<Rightarrow> 'v \<Rightarrow> 'v dict" where
  "dict_set [] k v = [(k, v)]"
| "dict_set ((k', v') # d) k v =
     (if py_eq k' k then (k', v) # d else (k', v') # dict_set d k v)"

fun dict_get :: "'v dict \<Rightarrow> number \<Rightarrow> 'v option" where
  "dict_get [] k = None"
| "dict_get ((k', v') # d) k = (if py_eq k' k then Some v' else dict_get d k)"


record Node =
  coordinates :: "number list"

record Element =
  el_type :: string
  vertices :: "number list"

record ElementSet =
  es_name :: string
  es_dim :: "int option"
  es_ids :: "number list"

record NodeSet =
  ns_name :: string
  ns_ids :: "number list"

record Mesh =
  mesh_name :: string
  nodes :: "Node dict"
  elements :: "Element dict"
  element_sets :: "(string \<times> ElementSet) list"
  node_sets :: "(string \<times> NodeSet) list"

text \<open>\<^verbatim>\<open>Mesh(name)\<close>: a mesh with nothing in it.\<close>

definition new_mesh :: "string \<Rightarrow> Mesh" where
  "new_mesh part_name =
     \<lparr>mesh_name = part_name, nodes = [], elements = [],
      element_sets = [], node_sets = []\<rparr>"

text \<open>What \<^verbatim>\<open>print\<close> writes to the console, one entry per call.\<close>

datatype msg =
    PrintPart string
  | PrintNodes nat
  | PrintNode Node
  | PrintElement string nat
  | PrintElementSet string
  | PrintNodeSet string

subsection \<open>The section readers\<close>

text \<open>
  A reader takes the file, the mesh and the console output so far and gives them back
  changed; an exception is \<open>Inl\<close>, and a loop that never ends is \<open>None\<close>. The
  leading underscore of the Python names is dropped.
\<close>

definition read_part ::
  "int \<Rightarrow> stream \<Rightarrow> msg list \<Rightarrow> error + (stream \<times> Mesh \<times> msg list)" where
  "read_part verbose f out =
     (let (line, f1) = readline f
      in case re_match ''*Part, name='' line of
           None \<Rightarrow>
             Inl (ReadInpFileError
                   (''Error parsing file. Expected '' @ [CHR 0x27] @ ''*Part, name=XXX''
                    @ [CHR 0x27] @ '', read '' @ [CHR 0x27] @ line @ [CHR 0x27] @ ''.''))
         | Some part_name \<Rightarrow>
             Inr (f1, new_mesh part_name,
                  if verbose = 1 \<or> verbose = 2 then out @ [PrintPart part_name] else out))"

partial_function (option) read_nodes_loop ::
  "int \<Rightarrow> stream \<Rightarrow> Mesh \<Rightarrow> nat \<Rightarrow> msg list
     \<Rightarrow> (error + (stream \<times> Mesh \<times> msg list)) option" where
  [code]: "read_nodes_loop verbose f mesh num_nodes out =
     (let (line, f1) = readline f
      in if strip line = [] then read_nodes_loop verbose f1 mesh num_nodes out
         else
           (case line of
              [] \<Rightarrow> Some (Inl IndexError)
            | c # _ \<Rightarrow>
                if c = CHR ''*'' then Some (Inr (f, mesh, out))
                else
                  let out1 = (if verbose = 1 then out @ [PrintNodes (num_nodes + 1)] else out)
                  in (case to_numbers (split_comma (strip line)) of
                        Inl e \<Rightarrow> Some (Inl e)
                      | Inr node_numbers \<Rightarrow>
                          (case node_numbers of
                             [] \<Rightarrow> Some (Inl IndexError)
                           | k # coords \<Rightarrow>
                               let node = \<lparr>coordinates = coords\<rparr>
                               in read_nodes_loop verbose f1
                                    (mesh\<lparr>nodes := dict_set (nodes mesh) k node\<rparr>)
                                    (num_nodes + 1)
                                    (if verbose = 2 then out1 @ [PrintNode node] else out1)))))"

definition read_nodes ::
  "int \<Rightarrow> stream \<Rightarrow> Mesh \<Rightarrow> msg list \<Rightarrow> (error + (stream \<times> Mesh \<times> msg list)) option" where
  "read_nodes verbose f mesh out =
     (let (line, f1) = readline f
      in if line \<noteq> ''*Node\<newline>''
         then Some (Inl (ReadInpFileError
                 (''\<newline>Error parsing file. Expected '' @ [CHR 0x27] @ ''*Node'' @ [CHR 0x27]
                  @ '', read '' @ [CHR 0x27] @ line @ [CHR 0x27] @ ''.'')))
         else read_nodes_loop verbose f1 mesh 0 out)"

partial_function (option) read_elements_loop ::
  "int \<Rightarrow> string \<Rightarrow> stream \<Rightarrow> Mesh \<Rightarrow> nat \<Rightarrow> msg list
     \<Rightarrow> (error + (stream \<times> Mesh \<times> nat \<times> msg list)) option" where
  [code]: "read_elements_loop verbose element_name f mesh num_elems out =
     (let (line, f1) = readline f
      in if strip line = [] then read_elements_loop verbose element_name f1 mesh num_elems out
         else
           (case line of
              [] \<Rightarrow> Some (Inl IndexError)
            | c # _ \<Rightarrow>
                if c = CHR ''*'' then Some (Inr (f, mesh, num_elems, out))
                else
                  let out1 = (if verbose = 1
                              then out @ [PrintElement element_name (num_elems + 1)] else out)
                  in (case to_numbers (split_comma (strip line)) of
                        Inl e \<Rightarrow> Some (Inl e)
                      | Inr element_numbers \<Rightarrow>
                          (case element_numbers of
                             [] \<Rightarrow> Some (Inl IndexError)
                           | k # conn \<Rightarrow>
                               read_elements_loop verbose element_name f1
                                 (mesh\<lparr>elements := dict_set (elements mesh) k
                                    \<lparr>el_type = element_name, vertices = conn\<rparr>\<rparr>)
                                 (num_elems + 1) out1))))"

text \<open>The value returned is the counter the loop ends with, which started at the
  \<open>num_elems\<close> passed in.\<close>

definition read_elements ::
  "int \<Rightarrow> stream \<Rightarrow> Mesh \<Rightarrow> nat \<Rightarrow> msg list
     \<Rightarrow> (error + (stream \<times> Mesh \<times> nat \<times> msg list)) option" where
  "read_elements verbose f mesh num_elems out =
     (let (line, f1) = readline f
      in case re_match ''*Element, type='' line of
           None \<Rightarrow>
             Some (Inl (ReadInpFileError
                    (''\<newline>Error parsing file. Expected '' @ [CHR 0x27]
                     @ ''*Element,         type=XXX'' @ [CHR 0x27] @ '', got '' @ [CHR 0x27]
                     @ line @ [CHR 0x27] @ ''.'')))
         | Some element_name \<Rightarrow> read_elements_loop verbose element_name f1 mesh num_elems out)"

text \<open>The generate branch of both set readers: the first three numbers of the data
  line are \<open>start\<close>, \<open>stop\<close> and \<open>step\<close>, and the ids are
  \<^verbatim>\<open>range(start, stop + 1, step)\<close>.\<close>

definition generate_ids :: "number list \<Rightarrow> error + number list" where
  "generate_ids generate_info =
     (case generate_info of
        start # stop # step # _ \<Rightarrow> py_range start (py_add_one stop) step
      | _ \<Rightarrow> Inl IndexError)"

partial_function (option) read_element_set_loop ::
  "stream \<Rightarrow> Mesh \<Rightarrow> ElementSet \<Rightarrow> string \<Rightarrow> (error + (stream \<times> Mesh)) option" where
  [code]: "read_element_set_loop f mesh element_set full_str =
     (let (line, f1) = readline f
      in if strip line = [] then read_element_set_loop f1 mesh element_set full_str
         else
           (case line of
              [] \<Rightarrow> Some (Inl IndexError)
            | c # _ \<Rightarrow>
                if c = CHR ''*''
                then (case to_numbers (filter (\<lambda>item. item \<noteq> []) (split_comma full_str)) of
                        Inl e \<Rightarrow> Some (Inl e)
                      | Inr ids \<Rightarrow>
                          Some (Inr (f, mesh\<lparr>element_sets := AList.update (es_name element_set)
                                  (element_set\<lparr>es_ids := ids\<rparr>) (element_sets mesh)\<rparr>)))
                else read_element_set_loop f1 mesh element_set (full_str @ strip line @ '','')))"

definition read_element_set ::
  "int \<Rightarrow> stream \<Rightarrow> Mesh \<Rightarrow> msg list \<Rightarrow> (error + (stream \<times> Mesh \<times> msg list)) option" where
  "read_element_set verbose f mesh out =
     (let (line, f1) = readline f
      in case re_match ''*Elset, elset='' line of
           None \<Rightarrow>
             Some (Inl (ReadInpFileError
                    (''Error parsing file. Expected '' @ [CHR 0x27] @ ''*Elset, elset=X''
                     @ [CHR 0x27] @ '', got '' @ [CHR 0x27] @ line @ [CHR 0x27] @ ''.'')))
         | Some element_set_name \<Rightarrow>
             let dim = (if startswith element_set_name ''edge'' then Some 1
                        else if startswith element_set_name ''face'' then Some 2
                        else if startswith element_set_name ''poly'' then Some 3
                        else None);
                 out1 = (if verbose = 1 \<or> verbose = 2
                         then out @ [PrintElementSet element_set_name] else out)
             in if endswith element_set_name ''generate''
                then
                  (let name = take (length element_set_name - 10) element_set_name;
                       (line2, f2) = readline f1
                   in case to_numbers (split_comma (strip line2)) of
                        Inl e \<Rightarrow> Some (Inl e)
                      | Inr generate_info \<Rightarrow>
                          (case generate_ids generate_info of
                             Inl e \<Rightarrow> Some (Inl e)
                           | Inr ids \<Rightarrow>
                               Some (Inr (f2,
                                 mesh\<lparr>element_sets := AList.update name
                                   \<lparr>es_name = name, es_dim = dim, es_ids = ids\<rparr>
                                   (element_sets mesh)\<rparr>,
                                 out1))))
                else
                  (case read_element_set_loop f1 mesh
                          \<lparr>es_name = element_set_name, es_dim = dim, es_ids = []\<rparr> [] of
                     None \<Rightarrow> None
                   | Some r \<Rightarrow>
                       (case r of
                          Inl e \<Rightarrow> Some (Inl e)
                        | Inr (f2, mesh2) \<Rightarrow> Some (Inr (f2, mesh2, out1)))))"

partial_function (option) read_node_set_loop ::
  "stream \<Rightarrow> Mesh \<Rightarrow> NodeSet \<Rightarrow> string \<Rightarrow> (error + (stream \<times> Mesh)) option" where
  [code]: "read_node_set_loop f mesh node_set full_str =
     (let (line, f1) = readline f
      in if strip line = [] then read_node_set_loop f1 mesh node_set full_str
         else
           (case line of
              [] \<Rightarrow> Some (Inl IndexError)
            | c # _ \<Rightarrow>
                if c = CHR ''*''
                then (case to_numbers (filter (\<lambda>item. item \<noteq> []) (split_comma full_str)) of
                        Inl e \<Rightarrow> Some (Inl e)
                      | Inr ids \<Rightarrow>
                          Some (Inr (f, mesh\<lparr>node_sets := AList.update (ns_name node_set)
                                  (node_set\<lparr>ns_ids := ids\<rparr>) (node_sets mesh)\<rparr>)))
                else read_node_set_loop f1 mesh node_set (full_str @ strip line @ '','')))"

definition read_node_set ::
  "int \<Rightarrow> stream \<Rightarrow> Mesh \<Rightarrow> msg list \<Rightarrow> (error + (stream \<times> Mesh \<times> msg list)) option" where
  "read_node_set verbose f mesh out =
     (let (line, f1) = readline f
      in case re_match ''*Nset, nset='' line of
           None \<Rightarrow>
             Some (Inl (ReadInpFileError
                    (''Error parsing file. Expected '' @ [CHR 0x27] @ ''*Nset, nset=X''
                     @ [CHR 0x27] @ '', got '' @ [CHR 0x27] @ line @ [CHR 0x27] @ ''.'')))
         | Some node_set_name \<Rightarrow>
             let out1 = (if verbose = 1 \<or> verbose = 2
                         then out @ [PrintNodeSet node_set_name] else out)
             in if endswith node_set_name ''generate''
                then
                  (let name = take (length node_set_name - 10) node_set_name;
                       (line2, f2) = readline f1
                   in case to_numbers (split_comma (strip line2)) of
                        Inl e \<Rightarrow> Some (Inl e)
                      | Inr generate_info \<Rightarrow>
                          (case generate_ids generate_info of
                             Inl e \<Rightarrow> Some (Inl e)
                           | Inr ids \<Rightarrow>
                               Some (Inr (f2,
                                 mesh\<lparr>node_sets := AList.update name
                                   \<lparr>ns_name = name, ns_ids = ids\<rparr> (node_sets mesh)\<rparr>,
                                 out1))))
                else
                  (case read_node_set_loop f1 mesh \<lparr>ns_name = node_set_name, ns_ids = []\<rparr> [] of
                     None \<Rightarrow> None
                   | Some r \<Rightarrow>
                       (case r of
                          Inl e \<Rightarrow> Some (Inl e)
                        | Inr (f2, mesh2) \<Rightarrow> Some (Inr (f2, mesh2, out1)))))"

subsection \<open>The dispatcher\<close>

text \<open>
  The loop of \<^verbatim>\<open>read_from_abaqus_inp\<close>. The local variable \<^verbatim>\<open>mesh\<close> is unbound
  until a part has been read, and naming it then raises \<^verbatim>\<open>UnboundLocalError\<close>.
  The loop gives back the mesh together with the counter \<^verbatim>\<open>num_elems\<close> and the
  console output.
\<close>

partial_function (option) read_loop ::
  "int \<Rightarrow> stream \<Rightarrow> Mesh option \<Rightarrow> nat \<Rightarrow> msg list
     \<Rightarrow> (error + (Mesh \<times> nat \<times> msg list)) option" where
  [code]: "read_loop verbose f mesh num_elems out =
     (case split_comma (strip (fst (readline f))) of
        [] \<Rightarrow> Some (Inl IndexError)
      | keyword # _ \<Rightarrow>
          if keyword = ''*Part''
          then (case read_part verbose f out of
                  Inl e \<Rightarrow> Some (Inl e)
                | Inr (f1, m1, out1) \<Rightarrow> read_loop verbose f1 (Some m1) num_elems out1)
          else if keyword = ''*Node''
          then (case mesh of
                  None \<Rightarrow> Some (Inl UnboundLocalError)
                | Some m \<Rightarrow>
                    (case read_nodes verbose f m out of
                       None \<Rightarrow> None
                     | Some r \<Rightarrow>
                         (case r of
                            Inl e \<Rightarrow> Some (Inl e)
                          | Inr (f1, m1, out1) \<Rightarrow>
                              read_loop verbose f1 (Some m1) num_elems out1)))
          else if keyword = ''*Element''
          then (case mesh of
                  None \<Rightarrow> Some (Inl UnboundLocalError)
                | Some m \<Rightarrow>
                    (case read_elements verbose f m num_elems out of
                       None \<Rightarrow> None
                     | Some r \<Rightarrow>
                         (case r of
                            Inl e \<Rightarrow> Some (Inl e)
                          | Inr (f1, m1, n1, out1) \<Rightarrow>
                              read_loop verbose f1 (Some m1) (num_elems + n1) out1)))
          else if keyword = ''*Elset''
          then (case mesh of
                  None \<Rightarrow> Some (Inl UnboundLocalError)
                | Some m \<Rightarrow>
                    (case read_element_set verbose f m out of
                       None \<Rightarrow> None
                     | Some r \<Rightarrow>
                         (case r of
                            Inl e \<Rightarrow> Some (Inl e)
                          | Inr (f1, m1, out1) \<Rightarrow>
                              read_loop verbose f1 (Some m1) num_elems out1)))
          else if keyword = ''*Nset''
          then (case mesh of
                  None \<Rightarrow> Some (Inl UnboundLocalError)
                | Some m \<Rightarrow>
                    (case read_node_set verbose f m out of
                       None \<Rightarrow> None
                     | Some r \<Rightarrow>
                         (case r of
                            Inl e \<Rightarrow> Some (Inl e)
                          | Inr (f1, m1, out1) \<Rightarrow>
                              read_loop verbose f1 (Some m1) num_elems out1)))
          else if keyword = ''*End Part''
          then (case mesh of
                  None \<Rightarrow> Some (Inl UnboundLocalError)
                | Some m \<Rightarrow> Some (Inr (m, num_elems, out)))
          else read_loop verbose (snd (readline f)) mesh num_elems out)"

text \<open>\<^verbatim>\<open>read_from_abaqus_inp\<close>, given the text of the file: the mesh, with the console
  output beside it.\<close>

definition read_from_abaqus_inp ::
  "stream \<Rightarrow> int \<Rightarrow> (error + (Mesh \<times> msg list)) option" where
  "read_from_abaqus_inp f verbose =
     (case read_loop verbose f None 0 [] of
        None \<Rightarrow> None
      | Some r \<Rightarrow>
          (case r of
             Inl e \<Rightarrow> Some (Inl e)
           | Inr (mesh, num_elems, out) \<Rightarrow> Some (Inr (mesh, out))))"

subsection \<open>Vocabulary of the specification\<close>

text \<open>The arithmetic progression \<open>start\<close>, \<open>start + step\<close>, ... up to and including
  \<open>stop\<close>, for a positive step: the members a generate line stands for.\<close>

definition progression :: "int \<Rightarrow> int \<Rightarrow> int \<Rightarrow> int list" where
  "progression start stop step =
     map (\<lambda>k. start + int k * step) [0 ..< nat ((stop - start) div step + 1)]"

text \<open>The text of a run of lines, each closed by a newline.\<close>

definition lines_text :: "string list \<Rightarrow> string" where
  "lines_text ls = concat (map (\<lambda>l. l @ [nl]) ls)"

text \<open>A line of a section body: no newline inside, and blank or not starting with
  the keyword marker.\<close>

definition body_line :: "string \<Rightarrow> bool" where
  "body_line l = (nl \<notin> set l \<and> (strip l = [] \<or> hd l \<noteq> CHR ''*''))"

text \<open>The tokens of an enumerated set body: the pieces between commas of its lines
  that are not empty.\<close>

definition enumeration_tokens :: "string list \<Rightarrow> string list" where
  "enumeration_tokens ls =
     filter (\<lambda>item. item \<noteq> [])
       (split_comma (concat (map (\<lambda>l. strip l @ '','') (filter (\<lambda>l. strip l \<noteq> []) ls))))"




section \<open>Properties\<close>

subsection \<open>Lines\<close>

lemma readline_Nil: "readline [] = ([], [])"
  by (simp add: readline_def)

lemma dropWhile_no_nl:
  "nl \<notin> set l \<Longrightarrow> dropWhile (\<lambda>c. c \<noteq> nl) (l @ r) = dropWhile (\<lambda>c. c \<noteq> nl) r"
  by (induction l) auto

lemma takeWhile_no_nl:
  "nl \<notin> set l \<Longrightarrow> takeWhile (\<lambda>c. c \<noteq> nl) (l @ r) = l @ takeWhile (\<lambda>c. c \<noteq> nl) r"
  by (induction l) auto

lemma readline_line: "nl \<notin> set l \<Longrightarrow> readline (l @ nl # rest) = (l @ [nl], rest)"
  by (simp add: readline_def dropWhile_no_nl takeWhile_no_nl)

lemma readline_Cons: "c \<noteq> nl \<Longrightarrow> \<exists>t. fst (readline (c # rest)) = c # t"
  by (simp add: readline_def split: list.splits)

lemma is_space_nl: "is_space nl"
  by (simp add: is_space_def nl_def)

lemma star_not_space: "\<not> is_space (CHR ''*'')" "CHR ''*'' \<noteq> nl"
  by (simp_all add: is_space_def nl_def)

lemma strip_Nil: "strip [] = []"
  by (simp add: strip_def)

lemma dropWhile_all: "list_all P xs \<Longrightarrow> dropWhile P xs = []"
  by (induction xs) auto

lemma strip_all_space: "list_all is_space s \<Longrightarrow> strip s = []"
  unfolding strip_def by (simp only: dropWhile_all rev.simps dropWhile.simps)

lemma strip_Nil_iff: "strip s = [] \<longleftrightarrow> list_all is_space s"
proof
  assume "strip s = []"
  then have "dropWhile is_space (rev (dropWhile is_space s)) = []"
    by (simp only: strip_def rev_is_Nil_conv)
  then have "\<forall>x\<in>set (dropWhile is_space s). is_space x"
    by (simp add: dropWhile_eq_Nil_conv)
  then have "dropWhile is_space s = []"
    by (metis hd_dropWhile list.set_sel(1))
  then show "list_all is_space s"
    by (simp add: list_all_iff dropWhile_eq_Nil_conv)
qed (rule strip_all_space)

lemma strip_nl: "strip (l @ [nl]) = strip l"
proof (cases "list_all is_space l")
  case True
  then have "list_all is_space (l @ [nl])"
    by (simp add: is_space_nl)
  with True show ?thesis
    by (simp only: strip_all_space)
next
  case False
  then have "dropWhile is_space (l @ [nl]) = dropWhile is_space l @ [nl]"
    by (auto simp: dropWhile_append list_all_iff)
  then show ?thesis
    by (simp add: strip_def is_space_nl)
qed

lemma strip_Cons_nonspace: "\<not> is_space c \<Longrightarrow> strip (c # s) \<noteq> []"
  by (simp add: strip_Nil_iff)

lemma data_line_Cons:
  assumes "strip l \<noteq> []" "hd l \<noteq> CHR ''*''"
  obtains c t where "l = c # t" "c \<noteq> CHR ''*''"
  using assms by (cases l) (auto simp: strip_def)

subsection \<open>The dispatcher at the end of the file\<close>

text \<open>At the end of the file \<^verbatim>\<open>readline\<close> gives the empty string, the keyword is
  empty, no branch of the dispatcher matches, and the loop goes round again.\<close>

lemma read_loop_returns_not_eof:
  assumes "read_loop v f m n out = Some y"
  shows "f \<noteq> []"
proof (rule read_loop.raw_induct [where P = "\<lambda>v f m n out y. f \<noteq> []", OF _ assms], goal_cases)
  case (1 rl v f m n out y)
  show ?case
  proof
    assume "f = []"
    with 1(2) have "rl v [] m n out = Some y"
      by (simp add: readline_Nil strip_Nil)
    with 1(1) show False
      by blast
  qed
qed

lemma read_loop_eof: "read_loop v [] m n out = None"
  using read_loop_returns_not_eof [of v "[]" m n out]
  by (cases "read_loop v [] m n out") auto

text \<open>
  Claim C2. The element reader should return the number of elements of its own block,
  and the running total of the dispatcher should be the number of element lines read.
  The code passes the running total into \<^verbatim>\<open>_read_elements\<close>, which counts on from it
  and returns the sum, and the dispatcher adds that sum to the total again. With two
  blocks of one element each, the second call returns 2 and the total ends at 3.
\<close>

theorem read_elements_counts_twice:
  "read_elements 0 ''*Element, type=B\<newline>2,1\<newline>*End Part\<newline>''
     \<lparr>mesh_name = ''P'', nodes = [],
      elements = [(PyInt 1, \<lparr>el_type = ''A'', vertices = [PyInt 1]\<rparr>)],
      element_sets = [], node_sets = []\<rparr> 1 []
   = Some (Inr (''*End Part\<newline>'',
        \<lparr>mesh_name = ''P'', nodes = [],
         elements = [(PyInt 1, \<lparr>el_type = ''A'', vertices = [PyInt 1]\<rparr>),
                     (PyInt 2, \<lparr>el_type = ''B'', vertices = [PyInt 1]\<rparr>)],
         element_sets = [], node_sets = []\<rparr>, 2, []))
   \<and> read_loop 0
     ''*Part, name=P\<newline>*Element, type=A\<newline>1,1\<newline>*Element, type=B\<newline>2,1\<newline>*End Part\<newline>''
     None 0 []
   = Some (Inr (
        \<lparr>mesh_name = ''P'', nodes = [],
         elements = [(PyInt 1, \<lparr>el_type = ''A'', vertices = [PyInt 1]\<rparr>),
                     (PyInt 2, \<lparr>el_type = ''B'', vertices = [PyInt 1]\<rparr>)],
         element_sets = [], node_sets = []\<rparr>, 3, []))"
  by code_simp

text \<open>
  Claim C3. A file whose first keyword line is \<^verbatim>\<open>*Node\<close> should fail with a
  \<^verbatim>\<open>ReadInpFileError\<close>. The code calls \<^verbatim>\<open>_read_nodes(f, mesh, verbose)\<close> while the
  local variable \<^verbatim>\<open>mesh\<close> is still unbound, so what is raised is an
  \<^verbatim>\<open>UnboundLocalError\<close>, whatever follows the \<^verbatim>\<open>*Node\<close> line.
\<close>

theorem read_from_abaqus_inp_node_before_part:
  "read_from_abaqus_inp (''*Node\<newline>'' @ rest) verbose = Some (Inl UnboundLocalError)"
proof -
  have r: "readline (''*Node\<newline>'' @ rest) = (''*Node\<newline>'', rest)"
    using readline_line [of "''*Node''" rest] by (simp add: nl_def)
  have s: "split_comma (strip ''*Node\<newline>'') = [''*Node'']"
    by code_simp
  have "read_loop verbose (''*Node\<newline>'' @ rest) None 0 [] = Some (Inl UnboundLocalError)"
    by (subst read_loop.simps) (simp only: r s fst_conv list.case, simp)
  then show ?thesis
    by (simp add: read_from_abaqus_inp_def)
qed

lemma readline_star:
  obtains t f1 where "readline (CHR ''*'' # rest) = (CHR ''*'' # t, f1)"
proof -
  obtain t where "fst (readline (CHR ''*'' # rest)) = CHR ''*'' # t"
    using readline_Cons star_not_space(2) by blast
  then have "readline (CHR ''*'' # rest) = (CHR ''*'' # t, snd (readline (CHR ''*'' # rest)))"
    by (cases "readline (CHR ''*'' # rest)") simp
  then show ?thesis ..
qed

lemma readline_data:
  assumes "nl \<notin> set l" "strip l \<noteq> []" "hd l \<noteq> CHR ''*''"
  obtains c t where "readline (l @ nl # rest) = (c # t, rest)" "c \<noteq> CHR ''*''"
    "strip (c # t) = strip l"
proof -
  obtain c t where l: "l = c # t" "c \<noteq> CHR ''*''"
    using assms(2,3) by (rule data_line_Cons)
  have "readline (l @ nl # rest) = (c # t @ [nl], rest)"
    using readline_line [OF assms(1)] l by simp
  moreover have "strip (c # t @ [nl]) = strip l"
    using strip_nl [of l] l by simp
  ultimately show ?thesis using l(2) that by blast
qed

subsection \<open>One line of a section body\<close>

lemma nodes_loop_star:
  "read_nodes_loop v (CHR ''*'' # rest) m k out = Some (Inr (CHR ''*'' # rest, m, out))"
proof -
  obtain t f1 where r: "readline (CHR ''*'' # rest) = (CHR ''*'' # t, f1)"
    by (rule readline_star)
  show ?thesis
    by (subst read_nodes_loop.simps) (simp add: r strip_Cons_nonspace star_not_space)
qed


lemma nodes_loop_data:
  assumes "nl \<notin> set l" "strip l \<noteq> []" "hd l \<noteq> CHR ''*''"
    and "to_numbers (split_comma (strip l)) = Inr (i # coords)"
  shows "read_nodes_loop v (l @ nl # rest) m k out =
    read_nodes_loop v rest (m\<lparr>nodes := dict_set (nodes m) i \<lparr>coordinates = coords\<rparr>\<rparr>) (k + 1)
      ((if v = 1 then out @ [PrintNodes (k + 1)] else out)
       @ (if v = 2 then [PrintNode \<lparr>coordinates = coords\<rparr>] else []))"
proof -
  obtain c t where r: "readline (l @ nl # rest) = (c # t, rest)" "c \<noteq> CHR ''*''"
    "strip (c # t) = strip l"
    using assms(1-3) by (rule readline_data)
  show ?thesis
    by (subst read_nodes_loop.simps) (simp add: r assms(2,4) Let_def)
qed


lemma elements_loop_star:
  "read_elements_loop v name (CHR ''*'' # rest) m k out = Some (Inr (CHR ''*'' # rest, m, k, out))"
proof -
  obtain t f1 where r: "readline (CHR ''*'' # rest) = (CHR ''*'' # t, f1)"
    by (rule readline_star)
  show ?thesis
    by (subst read_elements_loop.simps) (simp add: r strip_Cons_nonspace star_not_space)
qed


lemma elements_loop_data:
  assumes "nl \<notin> set l" "strip l \<noteq> []" "hd l \<noteq> CHR ''*''"
    and "to_numbers (split_comma (strip l)) = Inr (i # conn)"
  shows "read_elements_loop v name (l @ nl # rest) m k out =
    read_elements_loop v name rest
      (m\<lparr>elements := dict_set (elements m) i \<lparr>el_type = name, vertices = conn\<rparr>\<rparr>) (k + 1)
      (if v = 1 then out @ [PrintElement name (k + 1)] else out)"
proof -
  obtain c t where r: "readline (l @ nl # rest) = (c # t, rest)" "c \<noteq> CHR ''*''"
    "strip (c # t) = strip l"
    using assms(1-3) by (rule readline_data)
  show ?thesis
    by (subst read_elements_loop.simps) (simp add: r assms(2,4) Let_def)
qed


lemma element_set_loop_star:
  "read_element_set_loop (CHR ''*'' # rest) m es full_str =
    (case to_numbers (filter (\<lambda>item. item \<noteq> []) (split_comma full_str)) of
       Inl e \<Rightarrow> Some (Inl e)
     | Inr ids \<Rightarrow> Some (Inr (CHR ''*'' # rest,
         m\<lparr>element_sets := AList.update (es_name es) (es\<lparr>es_ids := ids\<rparr>) (element_sets m)\<rparr>)))"
proof -
  obtain t f1 where r: "readline (CHR ''*'' # rest) = (CHR ''*'' # t, f1)"
    by (rule readline_star)
  show ?thesis
    by (subst read_element_set_loop.simps) (simp add: r strip_Cons_nonspace star_not_space)
qed

lemma element_set_loop_blank:
  "nl \<notin> set l \<Longrightarrow> strip l = [] \<Longrightarrow>
   read_element_set_loop (l @ nl # rest) m es full_str = read_element_set_loop rest m es full_str"
  by (subst read_element_set_loop.simps) (simp add: readline_line strip_nl)

lemma element_set_loop_data:
  assumes "nl \<notin> set l" "strip l \<noteq> []" "hd l \<noteq> CHR ''*''"
  shows "read_element_set_loop (l @ nl # rest) m es full_str =
    read_element_set_loop rest m es (full_str @ strip l @ '','')"
proof -
  obtain c t where r: "readline (l @ nl # rest) = (c # t, rest)" "c \<noteq> CHR ''*''"
    "strip (c # t) = strip l"
    using assms(1-3) by (rule readline_data)
  show ?thesis
    by (subst read_element_set_loop.simps) (simp add: r assms(2))
qed

lemma node_set_loop_star:
  "read_node_set_loop (CHR ''*'' # rest) m ns full_str =
    (case to_numbers (filter (\<lambda>item. item \<noteq> []) (split_comma full_str)) of
       Inl e \<Rightarrow> Some (Inl e)
     | Inr ids \<Rightarrow> Some (Inr (CHR ''*'' # rest,
         m\<lparr>node_sets := AList.update (ns_name ns) (ns\<lparr>ns_ids := ids\<rparr>) (node_sets m)\<rparr>)))"
proof -
  obtain t f1 where r: "readline (CHR ''*'' # rest) = (CHR ''*'' # t, f1)"
    by (rule readline_star)
  show ?thesis
    by (subst read_node_set_loop.simps) (simp add: r strip_Cons_nonspace star_not_space)
qed

lemma node_set_loop_blank:
  "nl \<notin> set l \<Longrightarrow> strip l = [] \<Longrightarrow>
   read_node_set_loop (l @ nl # rest) m ns full_str = read_node_set_loop rest m ns full_str"
  by (subst read_node_set_loop.simps) (simp add: readline_line strip_nl)

lemma node_set_loop_data:
  assumes "nl \<notin> set l" "strip l \<noteq> []" "hd l \<noteq> CHR ''*''"
  shows "read_node_set_loop (l @ nl # rest) m ns full_str =
    read_node_set_loop rest m ns (full_str @ strip l @ '','')"
proof -
  obtain c t where r: "readline (l @ nl # rest) = (c # t, rest)" "c \<noteq> CHR ''*''"
    "strip (c # t) = strip l"
    using assms(1-3) by (rule readline_data)
  show ?thesis
    by (subst read_node_set_loop.simps) (simp add: r assms(2))
qed

subsection \<open>Tokens and headers\<close>

lemma to_number_Nil: "to_number [] = Inl ValueError"
  by code_simp

lemma split_comma_no_comma: "CHR '','' \<notin> set s \<Longrightarrow> split_comma s = [s]"
  by (induction s) auto

lemma set_strip_subset: "set (strip s) \<subseteq> set s"
proof -
  have "set (strip s) \<subseteq> set (dropWhile is_space s)"
    unfolding strip_def using set_dropWhileD by fastforce
  then show ?thesis
    using set_dropWhileD by fastforce
qed

lemma re_match_header: "nl \<notin> set name \<Longrightarrow> re_match p (p @ name @ [nl]) = Some name"
  using takeWhile_no_nl [of name "[nl]"] by (simp add: re_match_def)

lemma readline_header: "nl \<notin> set p \<Longrightarrow> nl \<notin> set name \<Longrightarrow>
  readline (p @ name @ nl # rest) = (p @ name @ [nl], rest)"
  using readline_line [of "p @ name" rest] by simp

lemma read_nodes_header:
  "read_nodes v (''*Node\<newline>'' @ rest) m out = read_nodes_loop v rest m 0 out"
proof -
  have "readline (''*Node\<newline>'' @ rest) = (''*Node\<newline>'', rest)"
    using readline_line [of "''*Node''" rest] by (simp add: nl_def)
  then show ?thesis
    by (simp add: read_nodes_def)
qed

lemma read_elements_header:
  assumes "nl \<notin> set name"
  shows "read_elements v (''*Element, type='' @ name @ nl # rest) m k out =
    read_elements_loop v name rest m k out"
proof -
  have "readline (''*Element, type='' @ name @ nl # rest) = (''*Element, type='' @ name @ [nl], rest)"
    using assms by (intro readline_header) (simp_all add: nl_def)
  then show ?thesis
    using re_match_header [OF assms, of "''*Element, type=''"]
    by (simp add: read_elements_def)
qed

subsection \<open>Ranges\<close>

lemma progression_empty: "0 < step \<Longrightarrow> stop < start \<Longrightarrow> progression start stop step = []"
proof -
  assume "0 < step" "stop < start"
  then have "(stop - start) div step < 0"
    by (simp add: div_neg_pos_less0)
  then show ?thesis
    by (simp add: progression_def)
qed

lemma progression_step:
  assumes "0 < step" "start \<le> stop"
  shows "progression start stop step = start # progression (start + step) stop step"
proof -
  have d: "(stop - start) div step = (stop - (start + step)) div step + 1"
    using assms(1) div_add_self2 [of step "stop - (start + step)"] by simp
  have "0 \<le> (stop - start) div step"
    using assms by (simp add: pos_imp_zdiv_nonneg_iff)
  then have n: "nat ((stop - start) div step + 1) = Suc (nat ((stop - (start + step)) div step + 1))"
    using d by simp
  show ?thesis
    unfolding progression_def n
    by (simp add: upt_conv_Cons map_Suc_upt [symmetric] del: upt_Suc) (simp add: algebra_simps)
qed

lemma range_list_progression:
  "0 < step \<Longrightarrow> range_list start (stop + 1) step = progression start stop step"
proof (induction start "stop + 1" step rule: range_list.induct)
  case (1 start step)
  show ?case
  proof (cases "start \<le> stop")
    case True
    then have "range_list start (stop + 1) step = start # range_list (start + step) (stop + 1) step"
      using 1(3) by (subst range_list.simps) simp
    also have "\<dots> = start # progression (start + step) stop step"
      using 1(1) 1(3) True by simp
    finally show ?thesis
      using progression_step [OF 1(3) True] by simp
  next
    case False
    then have "range_list start (stop + 1) step = []"
      using 1(3) by (subst range_list.simps) simp
    then show ?thesis
      using progression_empty [of step stop start] False 1(3) by simp
  qed
qed

lemma set_progression:
  assumes "0 < step"
  shows "set (progression start stop step) = {x. start \<le> x \<and> x \<le> stop \<and> step dvd (x - start)}"
proof (intro set_eqI iffI)
  fix x
  assume "x \<in> set (progression start stop step)"
  then obtain k where k: "k < nat ((stop - start) div step + 1)" "x = start + int k * step"
    by (auto simp: progression_def)
  from k(1) have "int k \<le> (stop - start) div step"
    by linarith
  then have "int k * step \<le> (stop - start) div step * step"
    using assms by (simp add: mult_right_mono)
  also have "\<dots> \<le> stop - start"
    using pos_mod_sign [of step "stop - start"] assms
    by (simp add: minus_mod_eq_div_mult [symmetric])
  finally have "x \<le> stop"
    using k(2) by simp
  moreover have "start \<le> x"
    using k(2) assms by simp
  moreover have "step dvd (x - start)"
    using k(2) by simp
  ultimately show "x \<in> {x. start \<le> x \<and> x \<le> stop \<and> step dvd (x - start)}"
    by simp
next
  fix x
  assume "x \<in> {x. start \<le> x \<and> x \<le> stop \<and> step dvd (x - start)}"
  then have x: "start \<le> x" "x \<le> stop" "step dvd (x - start)"
    by simp_all
  from x(3) obtain j where j: "x - start = step * j" ..
  have "0 \<le> step * j"
    using j x(1) by simp
  then have "0 \<le> j"
    using assms by (simp add: zero_le_mult_iff)
  have "j = (x - start) div step"
    using j assms by simp
  also have "\<dots> \<le> (stop - start) div step"
    using x(2) assms by (simp add: zdiv_mono1)
  finally have "nat j < nat ((stop - start) div step + 1)"
    using \<open>0 \<le> j\<close> by linarith
  moreover have "x = start + int (nat j) * step"
    using j \<open>0 \<le> j\<close> by (simp add: mult.commute)
  ultimately show "x \<in> set (progression start stop step)"
    unfolding progression_def by (auto simp del: upt_Suc intro!: image_eqI [where x = "nat j"])
qed

subsection \<open>Set sections in generate mode\<close>

lemma generate_ids_ints:
  "generate_ids (PyInt start # PyInt stop # PyInt step # extra) =
     (if step = 0 then Inl ValueError
      else Inr (map PyInt (range_list start (stop + 1) step)))"
  by (simp add: generate_ids_def py_range_def py_add_one_def)

lemma read_element_set_generate:
  assumes "nl \<notin> set name" "endswith name ''generate''" "nl \<notin> set l"
  shows "read_element_set v (''*Elset, elset='' @ name @ nl # l @ nl # rest) m out =
    (case to_numbers (split_comma (strip l)) of
       Inl e \<Rightarrow> Some (Inl e)
     | Inr generate_info \<Rightarrow>
         (case generate_ids generate_info of
            Inl e \<Rightarrow> Some (Inl e)
          | Inr ids \<Rightarrow>
              Some (Inr (rest,
                m\<lparr>element_sets := AList.update (take (length name - 10) name)
                    \<lparr>es_name = take (length name - 10) name,
                     es_dim = (if startswith name ''edge'' then Some 1
                               else if startswith name ''face'' then Some 2
                               else if startswith name ''poly'' then Some 3
                               else None),
                     es_ids = ids\<rparr> (element_sets m)\<rparr>,
                if v = 1 \<or> v = 2 then out @ [PrintElementSet name] else out))))"
proof -
  have "readline (''*Elset, elset='' @ name @ nl # l @ nl # rest)
      = (''*Elset, elset='' @ name @ [nl], l @ nl # rest)"
    using assms(1) by (intro readline_header) (simp_all add: nl_def)
  then show ?thesis
    using re_match_header [OF assms(1), of "''*Elset, elset=''"]
    by (simp add: read_element_set_def assms(2) readline_line [OF assms(3)] strip_nl Let_def)
qed

lemma read_node_set_generate:
  assumes "nl \<notin> set name" "endswith name ''generate''" "nl \<notin> set l"
  shows "read_node_set v (''*Nset, nset='' @ name @ nl # l @ nl # rest) m out =
    (case to_numbers (split_comma (strip l)) of
       Inl e \<Rightarrow> Some (Inl e)
     | Inr generate_info \<Rightarrow>
         (case generate_ids generate_info of
            Inl e \<Rightarrow> Some (Inl e)
          | Inr ids \<Rightarrow>
              Some (Inr (rest,
                m\<lparr>node_sets := AList.update (take (length name - 10) name)
                    \<lparr>ns_name = take (length name - 10) name, ns_ids = ids\<rparr> (node_sets m)\<rparr>,
                if v = 1 \<or> v = 2 then out @ [PrintNodeSet name] else out))))"
proof -
  have "readline (''*Nset, nset='' @ name @ nl # l @ nl # rest)
      = (''*Nset, nset='' @ name @ [nl], l @ nl # rest)"
    using assms(1) by (intro readline_header) (simp_all add: nl_def)
  then show ?thesis
    using re_match_header [OF assms(1), of "''*Nset, nset=''"]
    by (simp add: read_node_set_def assms(2) readline_line [OF assms(3)] strip_nl Let_def)
qed

text \<open>
  Claim C9. In generate mode, integers \<open>start > stop\<close> with a positive step give the
  empty range: the set is stored under the stripped name with no members, and nothing
  is raised.
\<close>

theorem generate_start_after_stop_gives_empty_set:
  assumes "nl \<notin> set name" and "endswith name ''generate''" and "nl \<notin> set l"
    and "to_numbers (split_comma (strip l)) = Inr (PyInt start # PyInt stop # PyInt step # extra)"
    and "stop < start" and "0 < step"
  shows "read_element_set v (''*Elset, elset='' @ name @ nl # l @ nl # rest) m out =
      Some (Inr (rest,
        m\<lparr>element_sets := AList.update (take (length name - 10) name)
            \<lparr>es_name = take (length name - 10) name,
             es_dim = (if startswith name ''edge'' then Some 1
                       else if startswith name ''face'' then Some 2
                       else if startswith name ''poly'' then Some 3
                       else None),
             es_ids = []\<rparr> (element_sets m)\<rparr>,
        if v = 1 \<or> v = 2 then out @ [PrintElementSet name] else out))
    \<and> read_node_set v (''*Nset, nset='' @ name @ nl # l @ nl # rest) m out =
      Some (Inr (rest,
        m\<lparr>node_sets := AList.update (take (length name - 10) name)
            \<lparr>ns_name = take (length name - 10) name, ns_ids = []\<rparr> (node_sets m)\<rparr>,
        if v = 1 \<or> v = 2 then out @ [PrintNodeSet name] else out))"
proof -
  have "range_list start (stop + 1) step = []"
    using assms(5,6) by (subst range_list.simps) simp
  then have "generate_ids (PyInt start # PyInt stop # PyInt step # extra) = Inr []"
    using assms(6) by (simp add: generate_ids_ints)
  then show ?thesis
    unfolding read_element_set_generate [OF assms(1-3)] read_node_set_generate [OF assms(1-3)]
    by (simp add: assms(4))
qed

theorem generate_start_after_stop_gives_empty_set_witness:
  "nl \<notin> set ''face1, generate'' \<and> endswith ''face1, generate'' ''generate'' \<and> nl \<notin> set ''5,2,1''
   \<and> to_numbers (split_comma (strip ''5,2,1'')) = Inr [PyInt 5, PyInt 2, PyInt 1]
   \<and> (2::int) < 5 \<and> (0::int) < 1
   \<and> read_element_set 0 ''*Elset, elset=face1, generate\<newline>5,2,1\<newline>*End Part\<newline>''
        (new_mesh ''P'') [] =
      Some (Inr (''*End Part\<newline>'',
        \<lparr>mesh_name = ''P'', nodes = [], elements = [],
         element_sets = [(''face1'', \<lparr>es_name = ''face1'', es_dim = Some 2, es_ids = []\<rparr>)],
         node_sets = []\<rparr>, []))
   \<and> read_node_set 0 ''*Nset, nset=face1, generate\<newline>5,2,1\<newline>*End Part\<newline>''
        (new_mesh ''P'') [] =
      Some (Inr (''*End Part\<newline>'',
        \<lparr>mesh_name = ''P'', nodes = [], elements = [], element_sets = [],
         node_sets = [(''face1'', \<lparr>ns_name = ''face1'', ns_ids = []\<rparr>)]\<rparr>, []))"
proof -
  have h: "nl \<notin> set ''face1, generate''" "endswith ''face1, generate'' ''generate''"
    "nl \<notin> set ''5,2,1''"
    by (simp_all add: nl_def endswith_def)
  have t: "to_numbers (split_comma (strip ''5,2,1'')) = Inr (PyInt 5 # PyInt 2 # PyInt 1 # [])"
    by code_simp
  have o: "(2::int) < 5" "(0::int) < 1"
    by simp_all
  show ?thesis
    using h t
      generate_start_after_stop_gives_empty_set [OF h t o, of 0 "''*End Part\<newline>''"
        "new_mesh ''P''" "[]"]
    by (simp add: new_mesh_def nl_def startswith_def)
qed

text \<open>
  Claim C5, amended. In generate mode, when the first three numbers of the data line
  are integers and the step is positive, the ids stored are the progression
  \<open>start\<close>, \<open>start + step\<close>, ... up to and including \<open>stop\<close>, in both set readers;
  the header \<^verbatim>\<open>*Elset, elset=Sgenerate\<close> with the data line \<^verbatim>\<open>1,10,3\<close> gives
  1, 4, 7, 10.
\<close>

theorem generate_gives_inclusive_progression:
  assumes "nl \<notin> set name" and "endswith name ''generate''" and "nl \<notin> set l"
    and "to_numbers (split_comma (strip l)) = Inr (PyInt start # PyInt stop # PyInt step # extra)"
    and "0 < step"
  shows "read_element_set v (''*Elset, elset='' @ name @ nl # l @ nl # rest) m out =
      Some (Inr (rest,
        m\<lparr>element_sets := AList.update (take (length name - 10) name)
            \<lparr>es_name = take (length name - 10) name,
             es_dim = (if startswith name ''edge'' then Some 1
                       else if startswith name ''face'' then Some 2
                       else if startswith name ''poly'' then Some 3
                       else None),
             es_ids = map PyInt (progression start stop step)\<rparr> (element_sets m)\<rparr>,
        if v = 1 \<or> v = 2 then out @ [PrintElementSet name] else out))
    \<and> read_node_set v (''*Nset, nset='' @ name @ nl # l @ nl # rest) m out =
      Some (Inr (rest,
        m\<lparr>node_sets := AList.update (take (length name - 10) name)
            \<lparr>ns_name = take (length name - 10) name,
             ns_ids = map PyInt (progression start stop step)\<rparr> (node_sets m)\<rparr>,
        if v = 1 \<or> v = 2 then out @ [PrintNodeSet name] else out))
    \<and> read_element_set 0 ''*Elset, elset=Sgenerate\<newline>1,10,3\<newline>'' (new_mesh ''P'') [] =
      Some (Inr ([],
        \<lparr>mesh_name = ''P'', nodes = [], elements = [],
         element_sets = [([], \<lparr>es_name = [], es_dim = None,
                              es_ids = [PyInt 1, PyInt 4, PyInt 7, PyInt 10]\<rparr>)],
         node_sets = []\<rparr>, []))"
proof -
  have "generate_ids (PyInt start # PyInt stop # PyInt step # extra)
      = Inr (map PyInt (progression start stop step))"
    using assms(5) by (simp add: generate_ids_ints range_list_progression)
  then have "read_element_set v (''*Elset, elset='' @ name @ nl # l @ nl # rest) m out =
      Some (Inr (rest,
        m\<lparr>element_sets := AList.update (take (length name - 10) name)
            \<lparr>es_name = take (length name - 10) name,
             es_dim = (if startswith name ''edge'' then Some 1
                       else if startswith name ''face'' then Some 2
                       else if startswith name ''poly'' then Some 3
                       else None),
             es_ids = map PyInt (progression start stop step)\<rparr> (element_sets m)\<rparr>,
        if v = 1 \<or> v = 2 then out @ [PrintElementSet name] else out))
    \<and> read_node_set v (''*Nset, nset='' @ name @ nl # l @ nl # rest) m out =
      Some (Inr (rest,
        m\<lparr>node_sets := AList.update (take (length name - 10) name)
            \<lparr>ns_name = take (length name - 10) name,
             ns_ids = map PyInt (progression start stop step)\<rparr> (node_sets m)\<rparr>,
        if v = 1 \<or> v = 2 then out @ [PrintNodeSet name] else out))"
    unfolding read_element_set_generate [OF assms(1-3)] read_node_set_generate [OF assms(1-3)]
    by (simp add: assms(4))
  moreover have "read_element_set 0 ''*Elset, elset=Sgenerate\<newline>1,10,3\<newline>'' (new_mesh ''P'') [] =
      Some (Inr ([],
        \<lparr>mesh_name = ''P'', nodes = [], elements = [],
         element_sets = [([], \<lparr>es_name = [], es_dim = None,
                              es_ids = [PyInt 1, PyInt 4, PyInt 7, PyInt 10]\<rparr>)],
         node_sets = []\<rparr>, []))"
    by code_simp
  ultimately show ?thesis
    by blast
qed

theorem generate_gives_inclusive_progression_witness:
  "nl \<notin> set ''poly2, generate'' \<and> endswith ''poly2, generate'' ''generate''
   \<and> nl \<notin> set ''1, 10, 3''
   \<and> to_numbers (split_comma (strip ''1, 10, 3'')) = Inr [PyInt 1, PyInt 10, PyInt 3]
   \<and> (0::int) < 3
   \<and> read_element_set 1 ''*Elset, elset=poly2, generate\<newline>1, 10, 3\<newline>*End Part\<newline>''
        (new_mesh ''P'') [] =
      Some (Inr (''*End Part\<newline>'',
        \<lparr>mesh_name = ''P'', nodes = [], elements = [],
         element_sets = [(''poly2'', \<lparr>es_name = ''poly2'', es_dim = Some 3,
                            es_ids = [PyInt 1, PyInt 4, PyInt 7, PyInt 10]\<rparr>)],
         node_sets = []\<rparr>, [PrintElementSet ''poly2, generate'']))
   \<and> read_node_set 1 ''*Nset, nset=poly2, generate\<newline>1, 10, 3\<newline>*End Part\<newline>''
        (new_mesh ''P'') [] =
      Some (Inr (''*End Part\<newline>'',
        \<lparr>mesh_name = ''P'', nodes = [], elements = [], element_sets = [],
         node_sets = [(''poly2'', \<lparr>ns_name = ''poly2'',
                         ns_ids = [PyInt 1, PyInt 4, PyInt 7, PyInt 10]\<rparr>)]\<rparr>,
        [PrintNodeSet ''poly2, generate'']))"
proof -
  have h: "nl \<notin> set ''poly2, generate''" "endswith ''poly2, generate'' ''generate''"
    "nl \<notin> set ''1, 10, 3''"
    by (simp_all add: nl_def endswith_def)
  have t: "to_numbers (split_comma (strip ''1, 10, 3'')) = Inr (PyInt 1 # PyInt 10 # PyInt 3 # [])"
    by code_simp
  have o: "(0::int) < 3"
    by simp
  have p: "progression 1 10 3 = [1, 4, 7, 10]"
    by code_simp
  show ?thesis
    using h t
      generate_gives_inclusive_progression [OF h t o, of 1 "''*End Part\<newline>''"
        "new_mesh ''P''" "[]"]
    by (simp add: new_mesh_def nl_def startswith_def p)
qed

text \<open>
  Claim C5 as stated speaks of any three numbers. With a negative step the range runs
  down and stops above \<open>stop + 1\<close>: from \<^verbatim>\<open>10,1,-3\<close> the ids are 10, 7, 4, without
  the 1 that the progression down to \<open>stop\<close> has. A zero step raises
  \<^verbatim>\<open>ValueError\<close>, and float numbers raise \<^verbatim>\<open>TypeError\<close>; no set is stored then.
\<close>

theorem generate_any_three_numbers_counterexample:
  "read_element_set 0 ''*Elset, elset=S, generate\<newline>10,1,-3\<newline>'' (new_mesh ''P'') [] =
      Some (Inr ([],
        \<lparr>mesh_name = ''P'', nodes = [], elements = [],
         element_sets = [(''S'', \<lparr>es_name = ''S'', es_dim = None,
                                 es_ids = [PyInt 10, PyInt 7, PyInt 4]\<rparr>)],
         node_sets = []\<rparr>, []))
   \<and> read_element_set 0 ''*Elset, elset=S, generate\<newline>1,10,0\<newline>'' (new_mesh ''P'') [] =
      Some (Inl ValueError)
   \<and> read_node_set 0 ''*Nset, nset=S, generate\<newline>1.5,10,3\<newline>'' (new_mesh ''P'') [] =
      Some (Inl TypeError)"
  by code_simp

subsection \<open>Set sections in enumeration mode\<close>

lemma lines_text_simps:
  "lines_text [] = []" "lines_text (l # ls) = l @ nl # lines_text ls"
  by (simp_all add: lines_text_def)

lemma element_set_loop_lines:
  "list_all body_line ls \<Longrightarrow>
   read_element_set_loop (lines_text ls @ CHR ''*'' # rest) m es full_str =
   read_element_set_loop (CHR ''*'' # rest) m es
     (full_str @ concat (map (\<lambda>l. strip l @ '','') (filter (\<lambda>l. strip l \<noteq> []) ls)))"
proof (induction ls arbitrary: full_str)
  case Nil
  then show ?case by (simp add: lines_text_simps)
next
  case (Cons l ls)
  from Cons.prems have bl: "body_line l" and ls: "list_all body_line ls"
    by simp_all
  from bl have l: "nl \<notin> set l" "strip l = [] \<or> hd l \<noteq> CHR ''*''"
    by (simp_all add: body_line_def)
  show ?case
  proof (cases "strip l = []")
    case True
    then show ?thesis
      using element_set_loop_blank [OF l(1) True] Cons.IH [OF ls]
      by (simp add: lines_text_simps)
  next
    case False
    then have "hd l \<noteq> CHR ''*''" using l(2) by simp
    then show ?thesis
      using element_set_loop_data [OF l(1) False] Cons.IH [OF ls] False
      by (simp add: lines_text_simps)
  qed
qed

lemma node_set_loop_lines:
  "list_all body_line ls \<Longrightarrow>
   read_node_set_loop (lines_text ls @ CHR ''*'' # rest) m ns full_str =
   read_node_set_loop (CHR ''*'' # rest) m ns
     (full_str @ concat (map (\<lambda>l. strip l @ '','') (filter (\<lambda>l. strip l \<noteq> []) ls)))"
proof (induction ls arbitrary: full_str)
  case Nil
  then show ?case by (simp add: lines_text_simps)
next
  case (Cons l ls)
  from Cons.prems have bl: "body_line l" and ls: "list_all body_line ls"
    by simp_all
  from bl have l: "nl \<notin> set l" "strip l = [] \<or> hd l \<noteq> CHR ''*''"
    by (simp_all add: body_line_def)
  show ?case
  proof (cases "strip l = []")
    case True
    then show ?thesis
      using node_set_loop_blank [OF l(1) True] Cons.IH [OF ls]
      by (simp add: lines_text_simps)
  next
    case False
    then have "hd l \<noteq> CHR ''*''" using l(2) by simp
    then show ?thesis
      using node_set_loop_data [OF l(1) False] Cons.IH [OF ls] False
      by (simp add: lines_text_simps)
  qed
qed

lemma read_element_set_enumerate:
  assumes "nl \<notin> set name" "\<not> endswith name ''generate''" "list_all body_line ls"
  shows "read_element_set v (''*Elset, elset='' @ name @ nl # lines_text ls @ CHR ''*'' # rest) m out =
    (case to_numbers (enumeration_tokens ls) of
       Inl e \<Rightarrow> Some (Inl e)
     | Inr ids \<Rightarrow>
         Some (Inr (CHR ''*'' # rest,
           m\<lparr>element_sets := AList.update name
               \<lparr>es_name = name,
                es_dim = (if startswith name ''edge'' then Some 1
                          else if startswith name ''face'' then Some 2
                          else if startswith name ''poly'' then Some 3
                          else None),
                es_ids = ids\<rparr> (element_sets m)\<rparr>,
           if v = 1 \<or> v = 2 then out @ [PrintElementSet name] else out)))"
proof -
  have "readline (''*Elset, elset='' @ name @ nl # lines_text ls @ CHR ''*'' # rest)
      = (''*Elset, elset='' @ name @ [nl], lines_text ls @ CHR ''*'' # rest)"
    using assms(1) by (intro readline_header) (simp_all add: nl_def)
  then show ?thesis
    using re_match_header [OF assms(1), of "''*Elset, elset=''"]
    by (simp add: read_element_set_def assms(2) element_set_loop_lines [OF assms(3)]
        element_set_loop_star enumeration_tokens_def Let_def split: sum.splits)
qed

lemma read_node_set_enumerate:
  assumes "nl \<notin> set name" "\<not> endswith name ''generate''" "list_all body_line ls"
  shows "read_node_set v (''*Nset, nset='' @ name @ nl # lines_text ls @ CHR ''*'' # rest) m out =
    (case to_numbers (enumeration_tokens ls) of
       Inl e \<Rightarrow> Some (Inl e)
     | Inr ids \<Rightarrow>
         Some (Inr (CHR ''*'' # rest,
           m\<lparr>node_sets := AList.update name \<lparr>ns_name = name, ns_ids = ids\<rparr> (node_sets m)\<rparr>,
           if v = 1 \<or> v = 2 then out @ [PrintNodeSet name] else out)))"
proof -
  have "readline (''*Nset, nset='' @ name @ nl # lines_text ls @ CHR ''*'' # rest)
      = (''*Nset, nset='' @ name @ [nl], lines_text ls @ CHR ''*'' # rest)"
    using assms(1) by (intro readline_header) (simp_all add: nl_def)
  then show ?thesis
    using re_match_header [OF assms(1), of "''*Nset, nset=''"]
    by (simp add: read_node_set_def assms(2) node_set_loop_lines [OF assms(3)]
        node_set_loop_star enumeration_tokens_def Let_def split: sum.splits)
qed

text \<open>
  Claim C6, amended. Take a set whose members are the progression \<open>start\<close>, \<open>start + step\<close>,
  ... up to \<open>stop\<close>. Written as an enumeration (lines whose tokens are these members,
  in order) and written in generate mode (a header whose name strips to the same
  name, and the data line \<open>start, stop, step\<close>), with integers and a positive step,
  the two sections are read without error and leave the same ids under that name, for
  element sets and for node sets.
\<close>

theorem enumeration_and_generate_store_equal_ids:
  assumes "nl \<notin> set name" and "\<not> endswith name ''generate''"
    and "list_all body_line ls"
    and "to_numbers (enumeration_tokens ls) = Inr (map PyInt (progression start stop step))"
    and "nl \<notin> set gname" and "endswith gname ''generate''"
    and "take (length gname - 10) gname = name"
    and "nl \<notin> set l"
    and "to_numbers (split_comma (strip l)) = Inr (PyInt start # PyInt stop # PyInt step # extra)"
    and "0 < step"
  shows "map_option (map_sum id (\<lambda>(f', m', out'). map_option es_ids (map_of (element_sets m') name)))
        (read_element_set v (''*Elset, elset='' @ name @ nl # lines_text ls @ CHR ''*'' # rest) m out)
      = map_option (map_sum id (\<lambda>(f', m', out'). map_option es_ids (map_of (element_sets m') name)))
        (read_element_set v (''*Elset, elset='' @ gname @ nl # l @ nl # rest2) m out)
    \<and> map_option (map_sum id (\<lambda>(f', m', out'). map_option es_ids (map_of (element_sets m') name)))
        (read_element_set v (''*Elset, elset='' @ gname @ nl # l @ nl # rest2) m out)
      = Some (Inr (Some (map PyInt (progression start stop step))))
    \<and> map_option (map_sum id (\<lambda>(f', m', out'). map_option ns_ids (map_of (node_sets m') name)))
        (read_node_set v (''*Nset, nset='' @ name @ nl # lines_text ls @ CHR ''*'' # rest) m out)
      = map_option (map_sum id (\<lambda>(f', m', out'). map_option ns_ids (map_of (node_sets m') name)))
        (read_node_set v (''*Nset, nset='' @ gname @ nl # l @ nl # rest2) m out)
    \<and> map_option (map_sum id (\<lambda>(f', m', out'). map_option ns_ids (map_of (node_sets m') name)))
        (read_node_set v (''*Nset, nset='' @ gname @ nl # l @ nl # rest2) m out)
      = Some (Inr (Some (map PyInt (progression start stop step))))"
proof -
  have g: "generate_ids (PyInt start # PyInt stop # PyInt step # extra)
      = Inr (map PyInt (progression start stop step))"
    using assms(10) by (simp add: generate_ids_ints range_list_progression)
  show ?thesis
    unfolding read_element_set_enumerate [OF assms(1-3)] read_node_set_enumerate [OF assms(1-3)]
      read_element_set_generate [OF assms(5,6,8)] read_node_set_generate [OF assms(5,6,8)]
    by (simp add: assms(4,7,9) g update_conv')
qed

theorem enumeration_and_generate_store_equal_ids_witness:
  "nl \<notin> set ''S'' \<and> \<not> endswith ''S'' ''generate''
   \<and> list_all body_line [''1, 4,'', '''', ''7, 10'']
   \<and> to_numbers (enumeration_tokens [''1, 4,'', '''', ''7, 10'']) = Inr (map PyInt (progression 1 10 3))
   \<and> nl \<notin> set ''S, generate'' \<and> endswith ''S, generate'' ''generate''
   \<and> take (length ''S, generate'' - 10) ''S, generate'' = ''S''
   \<and> nl \<notin> set ''1,10,3''
   \<and> to_numbers (split_comma (strip ''1,10,3'')) = Inr [PyInt 1, PyInt 10, PyInt 3]
   \<and> (0::int) < 3
   \<and> map_option (map_sum id (\<lambda>(f', m', out'). map_option es_ids (map_of (element_sets m') ''S'')))
        (read_element_set 0 ''*Elset, elset=S\<newline>1, 4,\<newline>\<newline>7, 10\<newline>*End Part\<newline>'' (new_mesh ''P'') [])
      = Some (Inr (Some [PyInt 1, PyInt 4, PyInt 7, PyInt 10]))
   \<and> map_option (map_sum id (\<lambda>(f', m', out'). map_option es_ids (map_of (element_sets m') ''S'')))
        (read_element_set 0 ''*Elset, elset=S, generate\<newline>1,10,3\<newline>*End Part\<newline>'' (new_mesh ''P'') [])
      = Some (Inr (Some [PyInt 1, PyInt 4, PyInt 7, PyInt 10]))
   \<and> map_option (map_sum id (\<lambda>(f', m', out'). map_option ns_ids (map_of (node_sets m') ''S'')))
        (read_node_set 0 ''*Nset, nset=S\<newline>1, 4,\<newline>\<newline>7, 10\<newline>*End Part\<newline>'' (new_mesh ''P'') [])
      = Some (Inr (Some [PyInt 1, PyInt 4, PyInt 7, PyInt 10]))
   \<and> map_option (map_sum id (\<lambda>(f', m', out'). map_option ns_ids (map_of (node_sets m') ''S'')))
        (read_node_set 0 ''*Nset, nset=S, generate\<newline>1,10,3\<newline>*End Part\<newline>'' (new_mesh ''P'') [])
      = Some (Inr (Some [PyInt 1, PyInt 4, PyInt 7, PyInt 10]))"
proof -
  have p: "progression 1 10 3 = [1, 4, 7, 10]"
    by code_simp
  have h1: "nl \<notin> set ''S''" "\<not> endswith ''S'' ''generate''"
    by (simp_all add: nl_def endswith_def)
  have h2: "list_all body_line [''1, 4,'', '''', ''7, 10'']"
    by code_simp
  have h3: "to_numbers (enumeration_tokens [''1, 4,'', '''', ''7, 10''])
      = Inr (map PyInt (progression 1 10 3))"
    unfolding p by code_simp
  have h4: "nl \<notin> set ''S, generate''" "endswith ''S, generate'' ''generate''"
    "take (length ''S, generate'' - 10) ''S, generate'' = ''S''" "nl \<notin> set ''1,10,3''"
    by (simp_all add: nl_def endswith_def)
  have h5: "to_numbers (split_comma (strip ''1,10,3'')) = Inr (PyInt 1 # PyInt 10 # PyInt 3 # [])"
    by code_simp
  have h6: "(0::int) < 3"
    by simp
  show ?thesis
    using h1 h2 h3 h4 h5
      enumeration_and_generate_store_equal_ids [OF h1 h2 h3 h4(1-3) h4(4) h5 h6,
        of 0 "''End Part\<newline>''" "new_mesh ''P''" "[]" "''*End Part\<newline>''"]
    by (simp add: p nl_def lines_text_def)
qed

subsection \<open>Tokens that are not numbers\<close>






subsection \<open>Dictionaries\<close>





lemma py_eq_int_refl: "py_eq (PyInt i) (PyInt i)"
  by simp

lemma dict_get_set_same: "py_eq k k \<Longrightarrow> dict_get (dict_set d k v) k = Some v"
  by (induction d) auto












subsection \<open>Node and element bodies, line by line\<close>










subsection \<open>The console output does not steer the readers\<close>

lemma nodes_loop_sim:
  assumes "read_nodes_loop v1 f m k o1 = Some r"
  shows "\<exists>r'. read_nodes_loop v2 f m k o2 = Some r'
    \<and> map_sum id (\<lambda>(f, m, out). (f, m)) r' = map_sum id (\<lambda>(f, m, out). (f, m)) r"
proof -
  have "\<forall>o2. \<exists>r'. read_nodes_loop v2 f m k o2 = Some r'
    \<and> map_sum id (\<lambda>(f, m, out). (f, m)) r' = map_sum id (\<lambda>(f, m, out). (f, m)) r"
  proof (rule read_nodes_loop.raw_induct [where P = "\<lambda>v1 f m k o1 r. \<forall>o2. \<exists>r'.
      read_nodes_loop v2 f m k o2 = Some r'
      \<and> map_sum id (\<lambda>(f, m, out). (f, m)) r' = map_sum id (\<lambda>(f, m, out). (f, m)) r", OF _ assms],
      goal_cases)
    case (1 rl v1 f m k o1 r)
    show ?case
    proof
      fix o2
      obtain line f1 where rd: "readline f = (line, f1)"
        by (cases "readline f")
      show "\<exists>r'. read_nodes_loop v2 f m k o2 = Some r'
        \<and> map_sum id (\<lambda>(f, m, out). (f, m)) r' = map_sum id (\<lambda>(f, m, out). (f, m)) r"
        using 1(2)
        apply (subst read_nodes_loop.simps)
        apply (simp add: rd Let_def split: if_splits list.splits sum.splits)
        apply (auto dest!: 1(1))
        done
    qed
  qed
  then show ?thesis by blast
qed

lemma elements_loop_sim:
  assumes "read_elements_loop v1 name f m k o1 = Some r"
  shows "\<exists>r'. read_elements_loop v2 name f m k o2 = Some r'
    \<and> map_sum id (\<lambda>(f, m, n, out). (f, m, n)) r' = map_sum id (\<lambda>(f, m, n, out). (f, m, n)) r"
proof -
  have "\<forall>o2. \<exists>r'. read_elements_loop v2 name f m k o2 = Some r'
    \<and> map_sum id (\<lambda>(f, m, n, out). (f, m, n)) r' = map_sum id (\<lambda>(f, m, n, out). (f, m, n)) r"
  proof (rule read_elements_loop.raw_induct [where P = "\<lambda>v1 name f m k o1 r. \<forall>o2. \<exists>r'.
      read_elements_loop v2 name f m k o2 = Some r'
      \<and> map_sum id (\<lambda>(f, m, n, out). (f, m, n)) r' = map_sum id (\<lambda>(f, m, n, out). (f, m, n)) r",
      OF _ assms], goal_cases)
    case (1 rl v1 name f m k o1 r)
    show ?case
    proof
      fix o2
      obtain line f1 where rd: "readline f = (line, f1)"
        by (cases "readline f")
      show "\<exists>r'. read_elements_loop v2 name f m k o2 = Some r'
        \<and> map_sum id (\<lambda>(f, m, n, out). (f, m, n)) r' = map_sum id (\<lambda>(f, m, n, out). (f, m, n)) r"
        using 1(2)
        apply (subst read_elements_loop.simps)
        apply (simp add: rd Let_def split: if_splits list.splits sum.splits)
        apply (auto dest!: 1(1))
        done
    qed
  qed
  then show ?thesis by blast
qed

lemma read_nodes_sim:
  assumes "read_nodes v1 f m o1 = Some r"
  shows "\<exists>r'. read_nodes v2 f m o2 = Some r'
    \<and> map_sum id (\<lambda>(f, m, out). (f, m)) r' = map_sum id (\<lambda>(f, m, out). (f, m)) r"
  using assms nodes_loop_sim [of v1 "snd (readline f)" m 0 o1 r v2 o2]
  by (auto simp: read_nodes_def Let_def split: prod.splits if_splits)

lemma read_elements_sim:
  assumes "read_elements v1 f m k o1 = Some r"
  shows "\<exists>r'. read_elements v2 f m k o2 = Some r'
    \<and> map_sum id (\<lambda>(f, m, n, out). (f, m, n)) r' = map_sum id (\<lambda>(f, m, n, out). (f, m, n)) r"
proof (cases "re_match ''*Element, type='' (fst (readline f))")
  case None
  then show ?thesis
    using assms by (auto simp: read_elements_def Let_def split: prod.splits)
next
  case (Some name)
  then show ?thesis
    using assms elements_loop_sim [of v1 name "snd (readline f)" m k o1 r v2 o2]
    by (auto simp: read_elements_def Let_def split: prod.splits)
qed

text \<open>Each reader called with another verbosity and other output so far gives the same
  result, up to the output it hands back.\<close>

lemma read_nodes_out:
  "\<exists>g. read_nodes v2 f m o2 =
     map_option (map_sum id (\<lambda>(f1, m1, out1). (f1, m1, g))) (read_nodes v1 f m o1)"
proof (cases "read_nodes v1 f m o1")
  case None
  have "read_nodes v2 f m o2 = None"
  proof (cases "read_nodes v2 f m o2")
    case (Some r)
    then show ?thesis
      using read_nodes_sim [OF Some, of v1 o1] None by simp
  qed simp
  then show ?thesis
    using None by simp
next
  case (Some r)
  then obtain r' where r': "read_nodes v2 f m o2 = Some r'"
    "map_sum id (\<lambda>(f, m, out). (f, m)) r' = map_sum id (\<lambda>(f, m, out). (f, m)) r"
    using read_nodes_sim by blast
  show ?thesis
  proof (cases r')
    case (Inl e)
    then show ?thesis
      using r' Some by (cases r) auto
  next
    case (Inr x)
    obtain f1 m1 g where "x = (f1, m1, g)"
      by (cases x)
    then show ?thesis
      using r' Some Inr by (cases r) (auto intro!: exI [of _ g])
  qed
qed

lemma read_elements_out:
  "\<exists>g. read_elements v2 f m k o2 =
     map_option (map_sum id (\<lambda>(f1, m1, n1, out1). (f1, m1, n1, g))) (read_elements v1 f m k o1)"
proof (cases "read_elements v1 f m k o1")
  case None
  have "read_elements v2 f m k o2 = None"
  proof (cases "read_elements v2 f m k o2")
    case (Some r)
    then show ?thesis
      using read_elements_sim [OF Some, of v1 o1] None by simp
  qed simp
  then show ?thesis
    using None by simp
next
  case (Some r)
  then obtain r' where r': "read_elements v2 f m k o2 = Some r'"
    "map_sum id (\<lambda>(f, m, n, out). (f, m, n)) r' = map_sum id (\<lambda>(f, m, n, out). (f, m, n)) r"
    using read_elements_sim by blast
  show ?thesis
  proof (cases r')
    case (Inl e)
    then show ?thesis
      using r' Some by (cases r) auto
  next
    case (Inr x)
    obtain f1 m1 n1 g where "x = (f1, m1, n1, g)"
      by (cases x)
    then show ?thesis
      using r' Some Inr by (cases r) (auto intro!: exI [of _ g])
  qed
qed

lemma read_part_out:
  "\<exists>g. read_part v2 f o2 = map_sum id (\<lambda>(f1, m1, out1). (f1, m1, g)) (read_part v1 f o1)"
  by (cases "re_match ''*Part, name='' (fst (readline f))")
     (auto simp: read_part_def Let_def split: prod.splits)

lemma read_element_set_out:
  "\<exists>g. read_element_set v2 f m o2 =
     map_option (map_sum id (\<lambda>(f1, m1, out1). (f1, m1, g))) (read_element_set v1 f m o1)"
proof -
  obtain line f1 where rd: "readline f = (line, f1)"
    by (cases "readline f")
  obtain line2 f2 where rd2: "readline f1 = (line2, f2)"
    by (cases "readline f1")
  show ?thesis
  proof (cases "re_match ''*Elset, elset='' line")
    case None
    then show ?thesis
      by (simp add: read_element_set_def rd)
  next
    case (Some name)
    show ?thesis
    proof (cases "endswith name ''generate''")
      case True
      show ?thesis
        by (intro exI [of _ "if v2 = 1 \<or> v2 = 2 then o2 @ [PrintElementSet name] else o2"])
           (simp add: read_element_set_def rd rd2 Some True Let_def split: sum.splits)
    next
      case False
      show ?thesis
        by (intro exI [of _ "if v2 = 1 \<or> v2 = 2 then o2 @ [PrintElementSet name] else o2"])
           (simp add: read_element_set_def rd Some False Let_def
              split: sum.splits option.splits)
    qed
  qed
qed

lemma read_node_set_out:
  "\<exists>g. read_node_set v2 f m o2 =
     map_option (map_sum id (\<lambda>(f1, m1, out1). (f1, m1, g))) (read_node_set v1 f m o1)"
proof -
  obtain line f1 where rd: "readline f = (line, f1)"
    by (cases "readline f")
  obtain line2 f2 where rd2: "readline f1 = (line2, f2)"
    by (cases "readline f1")
  show ?thesis
  proof (cases "re_match ''*Nset, nset='' line")
    case None
    then show ?thesis
      by (simp add: read_node_set_def rd)
  next
    case (Some name)
    show ?thesis
    proof (cases "endswith name ''generate''")
      case True
      show ?thesis
        by (intro exI [of _ "if v2 = 1 \<or> v2 = 2 then o2 @ [PrintNodeSet name] else o2"])
           (simp add: read_node_set_def rd rd2 Some True Let_def split: sum.splits)
    next
      case False
      show ?thesis
        by (intro exI [of _ "if v2 = 1 \<or> v2 = 2 then o2 @ [PrintNodeSet name] else o2"])
           (simp add: read_node_set_def rd Some False Let_def
              split: sum.splits option.splits)
    qed
  qed
qed

lemma read_loop_sim:
  assumes "read_loop v1 f mesh n o1 = Some r"
  shows "\<exists>r'. read_loop v2 f mesh n o2 = Some r'
    \<and> map_sum id (\<lambda>(m, n, out). (m, n)) r' = map_sum id (\<lambda>(m, n, out). (m, n)) r"
proof -
  have "\<forall>o2. \<exists>r'. read_loop v2 f mesh n o2 = Some r'
    \<and> map_sum id (\<lambda>(m, n, out). (m, n)) r' = map_sum id (\<lambda>(m, n, out). (m, n)) r"
  proof (rule read_loop.raw_induct [where P = "\<lambda>v1 f mesh n o1 r. \<forall>o2. \<exists>r'.
      read_loop v2 f mesh n o2 = Some r'
      \<and> map_sum id (\<lambda>(m, n, out). (m, n)) r' = map_sum id (\<lambda>(m, n, out). (m, n)) r",
      OF _ assms], goal_cases)
    case (1 rl v1 f mesh n o1 r)
    show ?case
    proof
      fix o2
      obtain gP where P: "read_part v2 f o2 =
          map_sum id (\<lambda>(f1, m1, out1). (f1, m1, gP)) (read_part v1 f o1)"
        using read_part_out by blast
      show "\<exists>r'. read_loop v2 f mesh n o2 = Some r'
        \<and> map_sum id (\<lambda>(m, n, out). (m, n)) r' = map_sum id (\<lambda>(m, n, out). (m, n)) r"
      proof (cases mesh)
        case None
        show ?thesis
          using 1(2)
          apply (subst read_loop.simps)
          apply (simp add: None P split: list.splits if_splits sum.splits)
          apply (auto dest!: 1(1))
          done
      next
        case (Some m)
        obtain gN where N: "read_nodes v2 f m o2 =
            map_option (map_sum id (\<lambda>(f1, m1, out1). (f1, m1, gN))) (read_nodes v1 f m o1)"
          using read_nodes_out by blast
        obtain gE where E: "read_elements v2 f m n o2 =
            map_option (map_sum id (\<lambda>(f1, m1, n1, out1). (f1, m1, n1, gE)))
              (read_elements v1 f m n o1)"
          using read_elements_out by blast
        obtain gS where S: "read_element_set v2 f m o2 =
            map_option (map_sum id (\<lambda>(f1, m1, out1). (f1, m1, gS))) (read_element_set v1 f m o1)"
          using read_element_set_out by blast
        obtain gT where T: "read_node_set v2 f m o2 =
            map_option (map_sum id (\<lambda>(f1, m1, out1). (f1, m1, gT))) (read_node_set v1 f m o1)"
          using read_node_set_out by blast
        show ?thesis
          using 1(2)
          apply (subst read_loop.simps)
          apply (simp add: Some P N E S T split: list.splits if_splits sum.splits option.splits)
          apply (auto dest!: 1(1))
          done
      qed
    qed
  qed
  then show ?thesis by blast
qed

lemma read_loop_out:
  "map_option (map_sum id (\<lambda>(m, n, out). (m, n))) (read_loop v1 f mesh n o1) =
   map_option (map_sum id (\<lambda>(m, n, out). (m, n))) (read_loop v2 f mesh n o2)"
proof (cases "read_loop v1 f mesh n o1")
  case None
  have "read_loop v2 f mesh n o2 = None"
  proof (cases "read_loop v2 f mesh n o2")
    case (Some r)
    then show ?thesis
      using read_loop_sim [OF Some, of v1 o1] None by simp
  qed simp
  then show ?thesis
    using None by simp
next
  case (Some r)
  then show ?thesis
    using read_loop_sim [OF Some, of v2 o2] by auto
qed

text \<open>
  Claim C7. For every file and any two verbosity levels (0, 1 and 2 among them),
  \<^verbatim>\<open>read_from_abaqus_inp\<close> has the same outcome: it fails with the same error, or
  returns the same mesh, or does not return in either case. Only the console output,
  the second component of the result, depends on the verbosity.
\<close>

theorem verbosity_does_not_change_the_result:
  "map_option (map_sum id fst) (read_from_abaqus_inp f v1) =
   map_option (map_sum id fst) (read_from_abaqus_inp f v2)"
proof -
  have "map_option (map_sum id fst) (read_from_abaqus_inp f v) =
      map_option (map_sum id fst) (map_option (map_sum id (\<lambda>(m, n, out). (m, n)))
        (read_loop v f None 0 []))" for v
    by (auto simp: read_from_abaqus_inp_def split: option.splits sum.splits)
  then show ?thesis
    using read_loop_out [of v1 f None 0 "[]" v2 "[]"] by simp
qed

subsection \<open>Files that end too early\<close>

lemma read_nodes_loop_eof: "read_nodes_loop v [] m k out = None"
proof (cases "read_nodes_loop v [] m k out")
  case (Some y)
  have "f \<noteq> []" if "read_nodes_loop v f m k out = Some y" for v f m k out y
  proof (rule read_nodes_loop.raw_induct [where P = "\<lambda>v f m k out y. f \<noteq> []", OF _ that],
      goal_cases)
    case (1 rl v f m k out y)
    show ?case
    proof
      assume "f = []"
      with 1(2) have "rl v [] m k out = Some y"
        by (simp add: readline_Nil strip_Nil)
      with 1(1) show False
        by blast
    qed
  qed
  then show ?thesis
    using Some by blast
qed simp

lemma read_elements_loop_eof: "read_elements_loop v name [] m k out = None"
proof (cases "read_elements_loop v name [] m k out")
  case (Some y)
  have "f \<noteq> []" if "read_elements_loop v name f m k out = Some y" for v name f m k out y
  proof (rule read_elements_loop.raw_induct [where P = "\<lambda>v name f m k out y. f \<noteq> []", OF _ that],
      goal_cases)
    case (1 rl v name f m k out y)
    show ?case
    proof
      assume "f = []"
      with 1(2) have "rl v name [] m k out = Some y"
        by (simp add: readline_Nil strip_Nil)
      with 1(1) show False
        by blast
    qed
  qed
  then show ?thesis
    using Some by blast
qed simp

lemma read_element_set_loop_eof: "read_element_set_loop [] m es full_str = None"
proof (cases "read_element_set_loop [] m es full_str")
  case (Some y)
  have "f \<noteq> []" if "read_element_set_loop f m es full_str = Some y" for f m es full_str y
  proof (rule read_element_set_loop.raw_induct [where P = "\<lambda>f m es full_str y. f \<noteq> []", OF _ that],
      goal_cases)
    case (1 rl f m es full_str y)
    show ?case
    proof
      assume "f = []"
      with 1(2) have "rl [] m es full_str = Some y"
        by (simp add: readline_Nil strip_Nil)
      with 1(1) show False
        by blast
    qed
  qed
  then show ?thesis
    using Some by blast
qed simp

lemma read_node_set_loop_eof: "read_node_set_loop [] m ns full_str = None"
proof (cases "read_node_set_loop [] m ns full_str")
  case (Some y)
  have "f \<noteq> []" if "read_node_set_loop f m ns full_str = Some y" for f m ns full_str y
  proof (rule read_node_set_loop.raw_induct [where P = "\<lambda>f m ns full_str y. f \<noteq> []", OF _ that],
      goal_cases)
    case (1 rl f m ns full_str y)
    show ?case
    proof
      assume "f = []"
      with 1(2) have "rl [] m ns full_str = Some y"
        by (simp add: readline_Nil strip_Nil)
      with 1(1) show False
        by blast
    qed
  qed
  then show ?thesis
    using Some by blast
qed simp

text \<open>
  Claim C1. On a file that ends before \<^verbatim>\<open>*End Part\<close> the reader should stop with a
  \<^verbatim>\<open>ReadInpFileError\<close>. The code does not: once the dispatcher is at the end of the
  file it never returns, whatever it has read before, and so it is with the loop of a
  node section. The empty file, a file with the part header alone, and a file that
  ends inside its node section make \<^verbatim>\<open>read_from_abaqus_inp\<close> run for ever.
\<close>

theorem read_from_abaqus_inp_truncated_never_returns:
  "read_loop verbose [] mesh num_elems out = None \<and>
   read_from_abaqus_inp [] verbose = None \<and>
   read_from_abaqus_inp ''*Part, name=P\<newline>'' verbose = None \<and>
   read_from_abaqus_inp ''*Part, name=P\<newline>*Node\<newline>1, 0, 0\<newline>'' verbose = None"
proof -
  have r: "readline ''*Part, name=P\<newline>'' = (''*Part, name=P\<newline>'', [])"
    "readline ''*Part, name=P\<newline>*Node\<newline>1, 0, 0\<newline>'' = (''*Part, name=P\<newline>'', ''*Node\<newline>1, 0, 0\<newline>'')"
    "readline ''*Node\<newline>1, 0, 0\<newline>'' = (''*Node\<newline>'', ''1, 0, 0\<newline>'')"
    by code_simp+
  have k: "split_comma (strip ''*Part, name=P\<newline>'') = [''*Part'', '' name=P'']"
    "split_comma (strip ''*Node\<newline>'') = [''*Node'']"
    by code_simp+
  have g: "re_match ''*Part, name='' ''*Part, name=P\<newline>'' = Some ''P''"
    by code_simp
  have part: "read_loop verbose ''*Part, name=P\<newline>'' None 0 [] = None"
    by (subst read_loop.simps)
       (simp only: r k g fst_conv list.case read_part_def Let_def prod.case
          option.case sum.case simp_thms if_True read_loop_eof)
  have line: "nl \<notin> set ''1, 0, 0''" "strip ''1, 0, 0'' \<noteq> []" "hd ''1, 0, 0'' \<noteq> CHR ''*''"
    "to_numbers (split_comma (strip ''1, 0, 0'')) = Inr (PyInt 1 # [PyInt 0, PyInt 0])"
    by code_simp+
  have "read_nodes_loop verbose (''1, 0, 0'' @ nl # []) m 0 out = None" for m out
    by (simp only: nodes_loop_data [OF line] read_nodes_loop_eof)
  then have "read_nodes verbose ''*Node\<newline>1, 0, 0\<newline>'' m out = None" for m out
    using read_nodes_header [of verbose "''1, 0, 0\<newline>''" m out] by (simp add: nl_def)
  then have "read_loop verbose ''*Node\<newline>1, 0, 0\<newline>'' (Some m) 0 out = None" for m out
    by (subst read_loop.simps) (simp add: r k)
  then have "read_loop verbose ''*Part, name=P\<newline>*Node\<newline>1, 0, 0\<newline>'' None 0 [] = None"
    by (subst read_loop.simps)
       (simp only: r k g fst_conv list.case read_part_def Let_def prod.case
          option.case sum.case simp_thms if_True)
  then show ?thesis
    using part by (simp add: read_loop_eof read_from_abaqus_inp_def)
qed

text \<open>
  Claim C6 as stated covers every arithmetic progression. The members 10, 7, 4 are the
  progression from 10 down to 4 by steps of -3. Written as an enumeration they are
  stored as 10, 7, 4; written in generate mode with the data line \<^verbatim>\<open>10,4,-3\<close> the
  range stops above \<open>stop + 1\<close> and the ids stored are 10, 7.
\<close>

theorem enumeration_and_generate_descending_counterexample:
  "read_element_set 0 ''*Elset, elset=S\<newline>10, 7, 4\<newline>*End Part\<newline>'' (new_mesh ''P'') [] =
      Some (Inr (''*End Part\<newline>'',
        \<lparr>mesh_name = ''P'', nodes = [], elements = [],
         element_sets = [(''S'', \<lparr>es_name = ''S'', es_dim = None,
                                 es_ids = [PyInt 10, PyInt 7, PyInt 4]\<rparr>)],
         node_sets = []\<rparr>, []))
   \<and> read_element_set 0 ''*Elset, elset=S, generate\<newline>10,4,-3\<newline>*End Part\<newline>''
        (new_mesh ''P'') [] =
      Some (Inr (''*End Part\<newline>'',
        \<lparr>mesh_name = ''P'', nodes = [], elements = [],
         element_sets = [(''S'', \<lparr>es_name = ''S'', es_dim = None,
                                 es_ids = [PyInt 10, PyInt 7]\<rparr>)],
         node_sets = []\<rparr>, []))
   \<and> read_node_set 0 ''*Nset, nset=S\<newline>10, 7, 4\<newline>*End Part\<newline>'' (new_mesh ''P'') [] =
      Some (Inr (''*End Part\<newline>'',
        \<lparr>mesh_name = ''P'', nodes = [], elements = [], element_sets = [],
         node_sets = [(''S'', \<lparr>ns_name = ''S'', ns_ids = [PyInt 10, PyInt 7, PyInt 4]\<rparr>)]\<rparr>, []))
   \<and> read_node_set 0 ''*Nset, nset=S, generate\<newline>10,4,-3\<newline>*End Part\<newline>''
        (new_mesh ''P'') [] =
      Some (Inr (''*End Part\<newline>'',
        \<lparr>mesh_name = ''P'', nodes = [], elements = [], element_sets = [],
         node_sets = [(''S'', \<lparr>ns_name = ''S'', ns_ids = [PyInt 10, PyInt 7]\<rparr>)]\<rparr>, []))"
  by code_simp

subsection \<open>Lines with a single number\<close>

text \<open>After \<^verbatim>\<open>d[k] = v\<close> the dictionary has an entry with the value \<open>v\<close> whose key is \<open>k\<close>
  or equals it.\<close>

lemma dict_set_entry:
  "list_ex (\<lambda>e. (fst e = k \<or> py_eq (fst e) k) \<and> snd e = v) (dict_set d k v)"
  by (induction d) auto

text \<open>
  Claim C10. The node and the element reader do not check how many numbers a data line
  has. A line that holds one number and no comma is read as a node without
  coordinates, or an element without vertices, and the loop goes on with the next
  line; a section that holds this line alone returns normally. The dictionary then
  has an entry with the empty node (element) whose key is that number or equals it,
  and, unless the number is not-a-number, looking the number up gives the empty node
  (element).
\<close>

theorem single_token_line_is_accepted:
  assumes "nl \<notin> set l" and "hd l \<noteq> CHR ''*''" and "CHR '','' \<notin> set l"
    and "to_number (strip l) = Inr i" and "nl \<notin> set name"
  shows "read_nodes_loop v (l @ nl # rest) m k out =
      read_nodes_loop v rest (m\<lparr>nodes := dict_set (nodes m) i \<lparr>coordinates = []\<rparr>\<rparr>) (k + 1)
        ((if v = 1 then out @ [PrintNodes (k + 1)] else out)
         @ (if v = 2 then [PrintNode \<lparr>coordinates = []\<rparr>] else []))
    \<and> read_elements_loop v name (l @ nl # rest) m k out =
      read_elements_loop v name rest
        (m\<lparr>elements := dict_set (elements m) i \<lparr>el_type = name, vertices = []\<rparr>\<rparr>) (k + 1)
        (if v = 1 then out @ [PrintElement name (k + 1)] else out)
    \<and> (\<exists>m' out'.
        read_nodes v (''*Node\<newline>'' @ l @ nl # CHR ''*'' # rest) m out =
          Some (Inr (CHR ''*'' # rest, m', out'))
        \<and> m' = m\<lparr>nodes := dict_set (nodes m) i \<lparr>coordinates = []\<rparr>\<rparr>
        \<and> out' = (if v = 1 then out @ [PrintNodes 1] else out)
             @ (if v = 2 then [PrintNode \<lparr>coordinates = []\<rparr>] else [])
        \<and> list_ex (\<lambda>e. (fst e = i \<or> py_eq (fst e) i) \<and> snd e = \<lparr>coordinates = []\<rparr>) (nodes m')
        \<and> (py_eq i i \<longrightarrow> dict_get (nodes m') i = Some \<lparr>coordinates = []\<rparr>))
    \<and> (\<exists>m' out'.
        read_elements v (''*Element, type='' @ name @ nl # l @ nl # CHR ''*'' # rest) m k out =
          Some (Inr (CHR ''*'' # rest, m', k + 1, out'))
        \<and> m' = m\<lparr>elements := dict_set (elements m) i \<lparr>el_type = name, vertices = []\<rparr>\<rparr>
        \<and> out' = (if v = 1 then out @ [PrintElement name (k + 1)] else out)
        \<and> list_ex (\<lambda>e. (fst e = i \<or> py_eq (fst e) i) \<and> snd e = \<lparr>el_type = name, vertices = []\<rparr>)
             (elements m')
        \<and> (py_eq i i \<longrightarrow> dict_get (elements m') i = Some \<lparr>el_type = name, vertices = []\<rparr>))"
proof -
  have ne: "strip l \<noteq> []"
    using assms(4) to_number_Nil by auto
  have "CHR '','' \<notin> set (strip l)"
    using assms(3) set_strip_subset by blast
  then have toks: "to_numbers (split_comma (strip l)) = Inr [i]"
    by (simp add: split_comma_no_comma assms(4))
  have n: "read_nodes_loop v (l @ nl # rest) m k out =
      read_nodes_loop v rest (m\<lparr>nodes := dict_set (nodes m) i \<lparr>coordinates = []\<rparr>\<rparr>) (k + 1)
        ((if v = 1 then out @ [PrintNodes (k + 1)] else out)
         @ (if v = 2 then [PrintNode \<lparr>coordinates = []\<rparr>] else []))" for rest k
    by (rule nodes_loop_data [OF assms(1) ne assms(2) toks])
  have e: "read_elements_loop v name (l @ nl # rest) m k out =
      read_elements_loop v name rest
        (m\<lparr>elements := dict_set (elements m) i \<lparr>el_type = name, vertices = []\<rparr>\<rparr>) (k + 1)
        (if v = 1 then out @ [PrintElement name (k + 1)] else out)" for rest
    by (rule elements_loop_data [OF assms(1) ne assms(2) toks])
  have rn: "read_nodes v (''*Node\<newline>'' @ l @ nl # CHR ''*'' # rest) m out =
      Some (Inr (CHR ''*'' # rest,
        m\<lparr>nodes := dict_set (nodes m) i \<lparr>coordinates = []\<rparr>\<rparr>,
        (if v = 1 then out @ [PrintNodes 1] else out)
         @ (if v = 2 then [PrintNode \<lparr>coordinates = []\<rparr>] else [])))"
    by (simp only: read_nodes_header n nodes_loop_star) simp
  have re: "read_elements v (''*Element, type='' @ name @ nl # l @ nl # CHR ''*'' # rest) m k out =
      Some (Inr (CHR ''*'' # rest,
        m\<lparr>elements := dict_set (elements m) i \<lparr>el_type = name, vertices = []\<rparr>\<rparr>,
        k + 1, if v = 1 then out @ [PrintElement name (k + 1)] else out))"
    by (simp only: read_elements_header [OF assms(5)] e elements_loop_star)
  have dn: "list_ex (\<lambda>e. (fst e = i \<or> py_eq (fst e) i) \<and> snd e = \<lparr>coordinates = []\<rparr>)
        (dict_set (nodes m) i \<lparr>coordinates = []\<rparr>)"
    "py_eq i i \<longrightarrow> dict_get (dict_set (nodes m) i \<lparr>coordinates = []\<rparr>) i = Some \<lparr>coordinates = []\<rparr>"
    by (simp_all add: dict_set_entry dict_get_set_same)
  have de: "list_ex (\<lambda>e. (fst e = i \<or> py_eq (fst e) i) \<and> snd e = \<lparr>el_type = name, vertices = []\<rparr>)
        (dict_set (elements m) i \<lparr>el_type = name, vertices = []\<rparr>)"
    "py_eq i i \<longrightarrow> dict_get (dict_set (elements m) i \<lparr>el_type = name, vertices = []\<rparr>) i
        = Some \<lparr>el_type = name, vertices = []\<rparr>"
    by (simp_all add: dict_set_entry dict_get_set_same)
  show ?thesis
    using n e rn re dn de by simp
qed

theorem single_token_line_is_accepted_witness:
  "nl \<notin> set ''7'' \<and> hd ''7'' \<noteq> CHR ''*'' \<and> CHR '','' \<notin> set ''7''
   \<and> to_number (strip ''7'') = Inr (PyInt 7) \<and> nl \<notin> set ''C3D4''
   \<and> py_eq (PyInt 7) (PyInt 7)
   \<and> read_nodes 0 ''*Node\<newline>7\<newline>*End Part\<newline>''
        \<lparr>mesh_name = ''P'',
         nodes = [(PyInt 3, \<lparr>coordinates = [PyInt 1, PyInt 1]\<rparr>),
                  (PyInt 7, \<lparr>coordinates = [PyInt 2, PyInt 2]\<rparr>)],
         elements = [(PyInt 3, \<lparr>el_type = ''A'', vertices = [PyInt 1, PyInt 2]\<rparr>)],
         element_sets = [], node_sets = []\<rparr> [] =
      Some (Inr (''*End Part\<newline>'',
        \<lparr>mesh_name = ''P'',
         nodes = [(PyInt 3, \<lparr>coordinates = [PyInt 1, PyInt 1]\<rparr>),
                  (PyInt 7, \<lparr>coordinates = []\<rparr>)],
         elements = [(PyInt 3, \<lparr>el_type = ''A'', vertices = [PyInt 1, PyInt 2]\<rparr>)],
         element_sets = [], node_sets = []\<rparr>, []))
   \<and> dict_get [(PyInt 3, \<lparr>coordinates = [PyInt 1, PyInt 1]\<rparr>), (PyInt 7, \<lparr>coordinates = []\<rparr>)]
        (PyInt 7) = Some \<lparr>coordinates = []\<rparr>
   \<and> read_elements 0 ''*Element, type=C3D4\<newline>7\<newline>*End Part\<newline>''
        \<lparr>mesh_name = ''P'',
         nodes = [(PyInt 3, \<lparr>coordinates = [PyInt 1, PyInt 1]\<rparr>),
                  (PyInt 7, \<lparr>coordinates = [PyInt 2, PyInt 2]\<rparr>)],
         elements = [(PyInt 3, \<lparr>el_type = ''A'', vertices = [PyInt 1, PyInt 2]\<rparr>)],
         element_sets = [], node_sets = []\<rparr> 0 [] =
      Some (Inr (''*End Part\<newline>'',
        \<lparr>mesh_name = ''P'',
         nodes = [(PyInt 3, \<lparr>coordinates = [PyInt 1, PyInt 1]\<rparr>),
                  (PyInt 7, \<lparr>coordinates = [PyInt 2, PyInt 2]\<rparr>)],
         elements = [(PyInt 3, \<lparr>el_type = ''A'', vertices = [PyInt 1, PyInt 2]\<rparr>),
                     (PyInt 7, \<lparr>el_type = ''C3D4'', vertices = []\<rparr>)],
         element_sets = [], node_sets = []\<rparr>, 1, []))
   \<and> dict_get [(PyInt 3, \<lparr>el_type = ''A'', vertices = [PyInt 1, PyInt 2]\<rparr>),
                (PyInt 7, \<lparr>el_type = ''C3D4'', vertices = []\<rparr>)]
        (PyInt 7) = Some \<lparr>el_type = ''C3D4'', vertices = []\<rparr>"
proof -
  have h: "nl \<notin> set ''7''" "hd ''7'' \<noteq> CHR ''*''" "CHR '','' \<notin> set ''7''"
    "nl \<notin> set ''C3D4''"
    by (simp_all add: nl_def)
  have t: "to_number (strip ''7'') = Inr (PyInt 7)"
    by code_simp
  show ?thesis
    using h t
      single_token_line_is_accepted [OF h(1) h(2) h(3) t h(4), where v = 0
        and rest = "''End Part\<newline>''" and k = 0 and out = "[]"
        and m = "\<lparr>mesh_name = ''P'',
         nodes = [(PyInt 3, \<lparr>coordinates = [PyInt 1, PyInt 1]\<rparr>),
                  (PyInt 7, \<lparr>coordinates = [PyInt 2, PyInt 2]\<rparr>)],
         elements = [(PyInt 3, \<lparr>el_type = ''A'', vertices = [PyInt 1, PyInt 2]\<rparr>)],
         element_sets = [], node_sets = []\<rparr>"]
    by (simp add: nl_def)
qed

end
